theory Spec2Isabelle
  imports Complex_Main "HOL-Library.Signed_Division" "HOL-Library.Sublist"
begin

section \<open>M777 howitzer simulator: numeric core\<close>

text \<open>
  A shallow embedding of the ballistic core of the simulator: the physics helpers and
  lookup tables (physics.h, physics.cpp), the vector primitives (angle, position,
  velocity, acceleration), the projectile state machine (projectile.h, projectile.cpp)
  and the elevation controls of the howitzer (howitzer.h).

  Conventions of the embedding.
  \<^item> A C++ \<^verbatim>\<open>double\<close> is a \<^typ>\<open>real\<close>. The macro \<^verbatim>\<open>M_PI\<close> is the double nearest to
    \<open>\<pi>\<close>, the constant \<open>M_PI\<close> below. The library functions \<^verbatim>\<open>sin\<close>, \<^verbatim>\<open>cos\<close>, \<^verbatim>\<open>sqrt\<close>,
    \<^verbatim>\<open>atan2\<close> are the real functions; \<^verbatim>\<open>fmod\<close> is exact, as it is on doubles.
  \<^item> In angle.h, angle.cpp and howitzer.h every product, quotient, sum and difference
    of doubles is rounded to the nearest double (\<open>fl\<close>, IEEE 754 binary64, ties to
    even): whether a stored angle is below \<^verbatim>\<open>2.0 * M_PI\<close> and whether an elevation is
    above 85 degrees is decided by the last bit. Overflow to infinity and NaN are
    outside the model.
  \<^item> In the physics helpers, the vector primitives and the projectile the arithmetic
    is exact: the statements about them are about the formulas the code evaluates.
  \<^item> A C++ \<^verbatim>\<open>int\<close> index is an \<^typ>\<open>int\<close>; the only integer arithmetic is the midpoint
    \<^verbatim>\<open>left + (right - left) / 2\<close> of the table search, which stays between two valid
    indices, so no wrap-around can occur. \<^verbatim>\<open>/\<close> on \<^verbatim>\<open>int\<close> truncates: \<open>sdiv\<close>.
  \<^item> A failing \<^verbatim>\<open>assert\<close> ends the program: every function that asserts returns
    \<open>error + 'a\<close>, with \<open>Inl AssertionFailed\<close> for the abort.
  \<^item> A member function that mutates \<^verbatim>\<open>*this\<close> takes the object last and returns the
    updated object.
\<close>

subsection \<open>Errors\<close>

datatype error = AssertionFailed

subsection \<open>Doubles\<close>

text \<open>\<^verbatim>\<open>M_PI\<close>, the literal \<^verbatim>\<open>3.14159265358979323846\<close> as the compiler stores it: the
  double \<open>7074237752028440 * 2\<^sup>-\<^sup>5\<^sup>1\<close>.\<close>

definition M_PI :: real where
  "M_PI = 884279719003555 / 2 ^ 48"

text \<open>\<^verbatim>\<open>M_PI_2\<close>, the double nearest to \<open>\<pi> / 2\<close>: half of \<^verbatim>\<open>M_PI\<close>.\<close>

definition M_PI_2 :: real where
  "M_PI_2 = 884279719003555 / 2 ^ 49"

text \<open>Rounding to an integer, a tie going to the even neighbour.\<close>

definition round_ties_even :: "real \<Rightarrow> int" where
  "round_ties_even q =
     (let f = \<lfloor>q\<rfloor>; r = q - of_int f
      in if r < 1 / 2 then f
         else if 1 / 2 < r then f + 1
         else if even f then f else f + 1)"

text \<open>The double nearest to a real: 53 significant bits, so in the binade
  \<open>2\<^sup>k \<le> |a| < 2\<^sup>k\<^sup>+\<^sup>1\<close> a multiple of \<open>2\<^sup>k\<^sup>-\<^sup>5\<^sup>2\<close>; below \<open>2\<^sup>-\<^sup>1\<^sup>0\<^sup>2\<^sup>2\<close> the spacing stays
  \<open>2\<^sup>-\<^sup>1\<^sup>0\<^sup>7\<^sup>4\<close> (subnormal numbers).\<close>

definition fl :: "real \<Rightarrow> real" where
  "fl a =
     (if a = 0 then 0
      else let e = max \<lfloor>log 2 \<bar>a\<bar>\<rfloor> (- 1022) - 52
           in of_int (round_ties_even (a / 2 powi e)) * 2 powi e)"

subsection \<open>physics.h: inline helpers\<close>

text \<open>\<^verbatim>\<open>areaFromRadius\<close>: \<^verbatim>\<open>assert(radius >= 0.0); return M_PI * (radius * radius);\<close>\<close>

definition areaFromRadius :: "real \<Rightarrow> error + real" where
  "areaFromRadius r = (if \<not> (r \<ge> 0) then Inl AssertionFailed else Inr (M_PI * (r * r)))"

text \<open>\<^verbatim>\<open>forceFromDrag\<close>: four assertions, then
  \<^verbatim>\<open>0.5 * density * drag * areaFromRadius(radius) * (velocity * velocity)\<close>.\<close>

definition forceFromDrag :: "real \<Rightarrow> real \<Rightarrow> real \<Rightarrow> real \<Rightarrow> error + real" where
  "forceFromDrag density drag r velocity =
     (if \<not> (density \<ge> 0) then Inl AssertionFailed
      else if \<not> (drag \<ge> 0) then Inl AssertionFailed
      else if \<not> (r \<ge> 0) then Inl AssertionFailed
      else if \<not> (velocity \<ge> 0) then Inl AssertionFailed
      else case areaFromRadius r of
             Inl e \<Rightarrow> Inl e
           | Inr area \<Rightarrow> Inr (0.5 * density * drag * area * (velocity * velocity)))"

text \<open>\<^verbatim>\<open>accelerationFromForce\<close>: \<^verbatim>\<open>assert(mass > 0.0); return force / mass;\<close>\<close>

definition accelerationFromForce :: "real \<Rightarrow> real \<Rightarrow> error + real" where
  "accelerationFromForce force m =
     (if \<not> (m > 0) then Inl AssertionFailed else Inr (force / m))"

text \<open>The two-point \<^verbatim>\<open>linearInterpolation\<close>: \<^verbatim>\<open>assert(d1 != d0);\<close> then
  \<^verbatim>\<open>r0 + (r1 - r0) * (d - d0) / (d1 - d0)\<close>.\<close>

definition linearInterpolation :: "real \<Rightarrow> real \<Rightarrow> real \<Rightarrow> real \<Rightarrow> real \<Rightarrow> error + real" where
  "linearInterpolation d0 r0 d1 r1 d =
     (if \<not> (d1 \<noteq> d0) then Inl AssertionFailed
      else Inr (r0 + (r1 - r0) * (d - d0) / (d1 - d0)))"

text \<open>\<^verbatim>\<open>struct Mapping { double domain; double range; }\<close>. The field \<^verbatim>\<open>range\<close> is
  \<open>range_val\<close> here, \<open>range\<close> being a constant of HOL.\<close>

record Mapping =
  domain :: real
  range_val :: real

subsection \<open>physics.cpp: interpolation over a table\<close>

text \<open>
  The loop of the table search,
  \<^verbatim>\<open>while (left < right - 1) { int mid = left + (right - left) / 2;
       if (mapping[mid].domain <= domain) left = mid; else right = mid; }\<close>
  returning the final \<open>(left, right)\<close>.
\<close>

function search_interval :: "Mapping list \<Rightarrow> real \<Rightarrow> int \<Rightarrow> int \<Rightarrow> int \<times> int" where
  "search_interval mapping d left right =
     (if left < right - 1
      then (let mid = left + (right - left) sdiv 2
            in if domain (mapping ! nat mid) \<le> d
               then search_interval mapping d mid right
               else search_interval mapping d left mid)
      else (left, right))"
  by pat_completeness auto
termination
  by (relation "measure (\<lambda>(mapping, d, left, right). nat (right - left))")
     (auto simp: signed_divide_int_def sgn_if)

text \<open>
  \<^verbatim>\<open>linearInterpolation(const Mapping mapping[], int numMapping, double domain)\<close>.
  The array and its length are one list; \<^verbatim>\<open>assert(mapping != nullptr)\<close> holds of
  every list, \<^verbatim>\<open>assert(numMapping > 0)\<close> is the first branch.
\<close>

definition linearInterpolation_map :: "Mapping list \<Rightarrow> real \<Rightarrow> error + real" where
  "linearInterpolation_map mapping d =
     (let numMapping = int (length mapping) in
      if \<not> (numMapping > 0) then Inl AssertionFailed
      else if d \<le> domain (mapping ! 0) then Inr (range_val (mapping ! 0))
      else if d \<ge> domain (mapping ! nat (numMapping - 1))
           then Inr (range_val (mapping ! nat (numMapping - 1)))
      else case search_interval mapping d 0 (numMapping - 1) of
             (left, right) \<Rightarrow>
               linearInterpolation (domain (mapping ! nat left)) (range_val (mapping ! nat left))
                 (domain (mapping ! nat right)) (range_val (mapping ! nat right)) d)"


text \<open>The constructor \<^verbatim>\<open>Mapping(double domain, double range)\<close>, which the brace
  initialisers of the tables call.\<close>

definition Mapping_init :: "real \<Rightarrow> real \<Rightarrow> Mapping" where
  "Mapping_init d r = \<lparr>domain = d, range_val = r\<rparr>"

subsection \<open>physics.cpp: the atmospheric tables\<close>

definition gravityMapping :: "Mapping list" where
  "gravityMapping =
     [Mapping_init 0 9.807,
      Mapping_init 1000 9.804,
      Mapping_init 2000 9.801,
      Mapping_init 3000 9.797,
      Mapping_init 4000 9.794,
      Mapping_init 5000 9.791,
      Mapping_init 6000 9.788,
      Mapping_init 7000 9.785,
      Mapping_init 8000 9.782,
      Mapping_init 9000 9.779,
      Mapping_init 10000 9.776,
      Mapping_init 15000 9.761,
      Mapping_init 20000 9.745,
      Mapping_init 25000 9.730,
      Mapping_init 30000 9.715,
      Mapping_init 40000 9.684,
      Mapping_init 50000 9.654,
      Mapping_init 60000 9.624,
      Mapping_init 70000 9.594,
      Mapping_init 80000 9.564]"

definition gravityFromAltitude :: "real \<Rightarrow> error + real" where
  "gravityFromAltitude altitude = linearInterpolation_map gravityMapping altitude"

definition densityMapping :: "Mapping list" where
  "densityMapping =
     [Mapping_init 0 1.225,
      Mapping_init 1000 1.112,
      Mapping_init 2000 1.007,
      Mapping_init 3000 0.9093,
      Mapping_init 4000 0.8194,
      Mapping_init 5000 0.7364,
      Mapping_init 6000 0.6601,
      Mapping_init 7000 0.5900,
      Mapping_init 8000 0.5258,
      Mapping_init 9000 0.4671,
      Mapping_init 10000 0.4135,
      Mapping_init 15000 0.1948,
      Mapping_init 20000 0.08891,
      Mapping_init 25000 0.04008,
      Mapping_init 30000 0.01841,
      Mapping_init 40000 0.003996,
      Mapping_init 50000 0.001027,
      Mapping_init 60000 0.0003097,
      Mapping_init 70000 0.0000828,
      Mapping_init 80000 0.0000185]"

definition densityFromAltitude :: "real \<Rightarrow> error + real" where
  "densityFromAltitude altitude = linearInterpolation_map densityMapping altitude"

definition speedSoundMapping :: "Mapping list" where
  "speedSoundMapping =
     [Mapping_init 0 340,
      Mapping_init 1000 336,
      Mapping_init 2000 332,
      Mapping_init 3000 328,
      Mapping_init 4000 324,
      Mapping_init 5000 320,
      Mapping_init 6000 316,
      Mapping_init 7000 312,
      Mapping_init 8000 308,
      Mapping_init 9000 303,
      Mapping_init 10000 299,
      Mapping_init 15000 295,
      Mapping_init 20000 295,
      Mapping_init 25000 295,
      Mapping_init 30000 305,
      Mapping_init 40000 324,
      Mapping_init 50000 337,
      Mapping_init 60000 319,
      Mapping_init 70000 289,
      Mapping_init 80000 269]"

definition speedSoundFromAltitude :: "real \<Rightarrow> error + real" where
  "speedSoundFromAltitude altitude = linearInterpolation_map speedSoundMapping altitude"

definition dragMapping :: "Mapping list" where
  "dragMapping =
     [Mapping_init 0 0,
      Mapping_init 0.1 0.0543,
      Mapping_init 0.3 0.1629,
      Mapping_init 0.5 0.1659,
      Mapping_init 0.7 0.2031,
      Mapping_init 0.89 0.2597,
      Mapping_init 0.92 0.3010,
      Mapping_init 0.96 0.3287,
      Mapping_init 0.98 0.4002,
      Mapping_init 1.00 0.4258,
      Mapping_init 1.02 0.4335,
      Mapping_init 1.06 0.4483,
      Mapping_init 1.24 0.4064,
      Mapping_init 1.53 0.3663,
      Mapping_init 1.99 0.2897,
      Mapping_init 2.87 0.2297,
      Mapping_init 2.89 0.2306,
      Mapping_init 5.00 0.2656]"

definition dragFromMach :: "real \<Rightarrow> error + real" where
  "dragFromMach speedMach = linearInterpolation_map dragMapping speedMach"

subsection \<open>angle.h, angle.cpp\<close>

text \<open>The C library's \<^verbatim>\<open>fmod(x, y)\<close>: \<open>x - n * y\<close> with \<open>n\<close> the quotient \<open>x / y\<close>
  truncated toward zero, so the result has the sign of \<open>x\<close>. On doubles the result is
  a double and is not rounded.\<close>

definition fmod :: "real \<Rightarrow> real \<Rightarrow> real" where
  "fmod a b = a - of_int (if 0 \<le> a / b then \<lfloor>a / b\<rfloor> else \<lceil>a / b\<rceil>) * b"

text \<open>The C library's \<^verbatim>\<open>atan2(y, x)\<close> as the real function, with values in \<open>(-\<pi>, \<pi>]\<close>.\<close>

definition atan2 :: "real \<Rightarrow> real \<Rightarrow> real" where
  "atan2 b a =
     (if 0 < a then arctan (b / a)
      else if a < 0 \<and> 0 \<le> b then arctan (b / a) + pi
      else if a < 0 then arctan (b / a) - pi
      else if 0 < b then pi / 2
      else if b < 0 then - (pi / 2)
      else 0)"

record Angle =
  radians :: real

text \<open>\<^verbatim>\<open>Angle::normalize\<close>, here \<open>Angle_normalize\<close> (\<open>normalize\<close> is a constant of HOL):
  \<^verbatim>\<open>radians = fmod(radians, 2.0 * M_PI); if (radians < 0.0) radians += 2.0 * M_PI;\<close>\<close>

definition Angle_normalize :: "real \<Rightarrow> real" where
  "Angle_normalize rad =
     (let rad1 = fmod rad (fl (2 * M_PI))
      in if rad1 < 0 then fl (rad1 + fl (2 * M_PI)) else rad1)"

text \<open>\<^verbatim>\<open>return normalize(radian) * (180.0 / M_PI);\<close> and
  \<^verbatim>\<open>return normalize(degrees * (M_PI / 180.0));\<close>\<close>

definition convertToDegrees :: "real \<Rightarrow> real" where
  "convertToDegrees radian = fl (Angle_normalize radian * fl (180 / M_PI))"

definition convertToRadians :: "real \<Rightarrow> real" where
  "convertToRadians degrees = Angle_normalize (fl (degrees * fl (M_PI / 180)))"

text \<open>Constructors: \<^verbatim>\<open>Angle()\<close>, \<^verbatim>\<open>Angle(const Angle&)\<close>, \<^verbatim>\<open>Angle(double degrees)\<close>.\<close>

definition Angle_default :: Angle where
  "Angle_default = \<lparr>radians = 0\<rparr>"

definition Angle_copy :: "Angle \<Rightarrow> Angle" where
  "Angle_copy rhs = \<lparr>radians = radians rhs\<rparr>"

definition Angle_degrees :: "real \<Rightarrow> Angle" where
  "Angle_degrees degrees = \<lparr>radians = convertToRadians degrees\<rparr>"

definition getRadians :: "Angle \<Rightarrow> real" where
  "getRadians a = radians a"

definition getDegrees :: "Angle \<Rightarrow> real" where
  "getDegrees a = convertToDegrees (radians a)"

definition getDx :: "Angle \<Rightarrow> real" where
  "getDx a = sin (radians a)"

definition getDy :: "Angle \<Rightarrow> real" where
  "getDy a = cos (radians a)"

definition isRight :: "Angle \<Rightarrow> bool" where
  "isRight a \<longleftrightarrow> radians a > 0 \<and> radians a < M_PI"

definition isLeft :: "Angle \<Rightarrow> bool" where
  "isLeft a \<longleftrightarrow> radians a > M_PI \<and> radians a < fl (2 * M_PI)"

definition setDegrees :: "real \<Rightarrow> Angle \<Rightarrow> Angle" where
  "setDegrees degrees a = a\<lparr>radians := convertToRadians degrees\<rparr>"

definition setRadians :: "real \<Rightarrow> Angle \<Rightarrow> Angle" where
  "setRadians rad a = a\<lparr>radians := Angle_normalize rad\<rparr>"

definition setUp :: "Angle \<Rightarrow> Angle" where
  "setUp a = a\<lparr>radians := 0\<rparr>"

definition setDown :: "Angle \<Rightarrow> Angle" where
  "setDown a = a\<lparr>radians := M_PI\<rparr>"

definition setRight :: "Angle \<Rightarrow> Angle" where
  "setRight a = a\<lparr>radians := M_PI_2\<rparr>"

definition setLeft :: "Angle \<Rightarrow> Angle" where
  "setLeft a = a\<lparr>radians := fl (M_PI + M_PI_2)\<rparr>"

definition reverse :: "Angle \<Rightarrow> Angle" where
  "reverse a = a\<lparr>radians := Angle_normalize (fl (radians a + M_PI))\<rparr>"

text \<open>\<^verbatim>\<open>Angle::add(double delta)\<close>, the delta in radians:
  \<^verbatim>\<open>radians = normalize(radians + delta);\<close>\<close>

definition Angle_add :: "real \<Rightarrow> Angle \<Rightarrow> Angle" where
  "Angle_add delta a = a\<lparr>radians := Angle_normalize (fl (radians a + delta))\<rparr>"

definition setDxDy :: "real \<Rightarrow> real \<Rightarrow> Angle \<Rightarrow> Angle" where
  "setDxDy ax ay a = a\<lparr>radians := Angle_normalize (atan2 ax ay)\<rparr>"

text \<open>\<^verbatim>\<open>operator=(const Angle&)\<close> and \<^verbatim>\<open>operator=(double degrees)\<close>.\<close>

definition Angle_assign :: "Angle \<Rightarrow> Angle \<Rightarrow> Angle" where
  "Angle_assign rhs a = a\<lparr>radians := radians rhs\<rparr>"

definition Angle_assign_degrees :: "real \<Rightarrow> Angle \<Rightarrow> Angle" where
  "Angle_assign_degrees degrees a = setDegrees degrees a"

text \<open>The binary operators build a fresh \<^verbatim>\<open>Angle result\<close> and store the normalised sum
  or difference; the argument of the \<open>_degrees\<close> variants is in degrees.\<close>

definition Angle_plus_degrees :: "Angle \<Rightarrow> real \<Rightarrow> Angle" where
  "Angle_plus_degrees a degrees =
     Angle_default\<lparr>radians := Angle_normalize (fl (radians a + convertToRadians degrees))\<rparr>"

definition Angle_minus_degrees :: "Angle \<Rightarrow> real \<Rightarrow> Angle" where
  "Angle_minus_degrees a degrees =
     Angle_default\<lparr>radians := Angle_normalize (fl (radians a - convertToRadians degrees))\<rparr>"

definition Angle_plus :: "Angle \<Rightarrow> Angle \<Rightarrow> Angle" where
  "Angle_plus a rhs = Angle_default\<lparr>radians := Angle_normalize (fl (radians a + radians rhs))\<rparr>"

definition Angle_minus :: "Angle \<Rightarrow> Angle \<Rightarrow> Angle" where
  "Angle_minus a rhs = Angle_default\<lparr>radians := Angle_normalize (fl (radians a - radians rhs))\<rparr>"

text \<open>The compound assignments \<^verbatim>\<open>+=\<close> and \<^verbatim>\<open>-=\<close> update \<^verbatim>\<open>*this\<close>.\<close>

definition Angle_plus_eq_degrees :: "real \<Rightarrow> Angle \<Rightarrow> Angle" where
  "Angle_plus_eq_degrees degrees a =
     a\<lparr>radians := Angle_normalize (fl (radians a + convertToRadians degrees))\<rparr>"

definition Angle_minus_eq_degrees :: "real \<Rightarrow> Angle \<Rightarrow> Angle" where
  "Angle_minus_eq_degrees degrees a =
     a\<lparr>radians := Angle_normalize (fl (radians a - convertToRadians degrees))\<rparr>"

definition Angle_plus_eq :: "Angle \<Rightarrow> Angle \<Rightarrow> Angle" where
  "Angle_plus_eq rhs a = a\<lparr>radians := Angle_normalize (fl (radians a + radians rhs))\<rparr>"

definition Angle_minus_eq :: "Angle \<Rightarrow> Angle \<Rightarrow> Angle" where
  "Angle_minus_eq rhs a = a\<lparr>radians := Angle_normalize (fl (radians a - radians rhs))\<rparr>"

text \<open>\<^verbatim>\<open>getOpposite\<close>: \<^verbatim>\<open>return Angle(getDegrees() + 180.0);\<close>\<close>

definition getOpposite :: "Angle \<Rightarrow> Angle" where
  "getOpposite a = Angle_degrees (fl (getDegrees a + 180))"

subsection \<open>acceleration.h, acceleration.cpp\<close>

record Acceleration =
  ddx :: real
  ddy :: real

definition Acceleration_init :: "real \<Rightarrow> real \<Rightarrow> Acceleration" where
  "Acceleration_init ax ay = \<lparr>ddx = ax, ddy = ay\<rparr>"

definition getDDX :: "Acceleration \<Rightarrow> real" where
  "getDDX a = ddx a"

definition getDDY :: "Acceleration \<Rightarrow> real" where
  "getDDY a = ddy a"

text \<open>\<^verbatim>\<open>Acceleration::operator+\<close>.\<close>

definition Acceleration_plus :: "Acceleration \<Rightarrow> Acceleration \<Rightarrow> Acceleration" where
  "Acceleration_plus a rhs = Acceleration_init (ddx a + ddx rhs) (ddy a + ddy rhs)"

subsection \<open>velocity.h, velocity.cpp\<close>

record Velocity =
  dx :: real
  dy :: real

definition Velocity_default :: Velocity where
  "Velocity_default = \<lparr>dx = 0, dy = 0\<rparr>"

definition getDX :: "Velocity \<Rightarrow> real" where
  "getDX vel = dx vel"

definition getDY :: "Velocity \<Rightarrow> real" where
  "getDY vel = dy vel"

definition getSpeed :: "Velocity \<Rightarrow> real" where
  "getSpeed vel = sqrt ((dx vel * dx vel) + (dy vel * dy vel))"

text \<open>\<^verbatim>\<open>Velocity::set(const Angle& angle, double magnitude)\<close>.\<close>

definition Velocity_set :: "Angle \<Rightarrow> real \<Rightarrow> Velocity \<Rightarrow> error + Velocity" where
  "Velocity_set angle magnitude vel =
     (if \<not> (magnitude \<ge> 0) then Inl AssertionFailed
      else Inr (vel\<lparr>dx := magnitude * sin (getRadians angle),
                    dy := magnitude * cos (getRadians angle)\<rparr>))"

text \<open>\<^verbatim>\<open>Velocity::add(const Acceleration& acceleration, double time)\<close>.\<close>

definition Velocity_add :: "Acceleration \<Rightarrow> real \<Rightarrow> Velocity \<Rightarrow> error + Velocity" where
  "Velocity_add acceleration time vel =
     (if \<not> (time \<ge> 0) then Inl AssertionFailed
      else Inr (vel\<lparr>dx := dx vel + getDDX acceleration * time,
                    dy := dy vel + getDDY acceleration * time\<rparr>))"

subsection \<open>position.h, position.cpp\<close>

text \<open>\<^verbatim>\<open>class Position\<close> with its private fields \<^verbatim>\<open>double x\<close> and \<^verbatim>\<open>double y\<close>, in
  meters; they are \<open>pos_x\<close> and \<open>pos_y\<close> here. The static \<^verbatim>\<open>metersFromPixels\<close> is read
  by the pixel accessors only, which the numeric core does not call.\<close>

record Position =
  pos_x :: real
  pos_y :: real

text \<open>\<^verbatim>\<open>Position()\<close> and \<^verbatim>\<open>Position(double x, double y)\<close>.\<close>

definition Position_default :: Position where
  "Position_default = \<lparr>pos_x = 0, pos_y = 0\<rparr>"

definition Position_init :: "real \<Rightarrow> real \<Rightarrow> Position" where
  "Position_init a b = \<lparr>pos_x = a, pos_y = b\<rparr>"

text \<open>position.h: \<^verbatim>\<open>double getMetersX() const { return x; }\<close> and
  \<^verbatim>\<open>double getMetersY() const { return y; }\<close>.\<close>

definition getMetersX :: "Position \<Rightarrow> real" where
  "getMetersX p = pos_x p"

definition getMetersY :: "Position \<Rightarrow> real" where
  "getMetersY p = pos_y p"

text \<open>\<^verbatim>\<open>Position::add(const Acceleration& a, const Velocity& v, double t)\<close>:
  \<^verbatim>\<open>x += v.getDX() * t + 0.5 * a.getDDX() * t * t;\<close> and the same for \<^verbatim>\<open>y\<close>.\<close>

definition Position_add :: "Acceleration \<Rightarrow> Velocity \<Rightarrow> real \<Rightarrow> Position \<Rightarrow> error + Position" where
  "Position_add a vel time p =
     (if \<not> (time \<ge> 0) then Inl AssertionFailed
      else Inr (p\<lparr>pos_x := pos_x p + (getDX vel * time + 0.5 * getDDX a * time * time),
                  pos_y := pos_y p + (getDY vel * time + 0.5 * getDDY a * time * time)\<rparr>))"

subsection \<open>projectile.h, projectile.cpp\<close>

text \<open>\<^verbatim>\<open>struct PositionVelocityTime { Position pos; Velocity v; double t; }\<close>; the
  fields carry the prefix \<open>pvt_\<close> here.\<close>

record PositionVelocityTime =
  pvt_pos :: Position
  pvt_v :: Velocity
  pvt_t :: real

definition PositionVelocityTime_default :: PositionVelocityTime where
  "PositionVelocityTime_default =
     \<lparr>pvt_pos = Position_default, pvt_v = Velocity_default, pvt_t = 0\<rparr>"

definition PositionVelocityTime_init ::
    "Position \<Rightarrow> Velocity \<Rightarrow> real \<Rightarrow> PositionVelocityTime" where
  "PositionVelocityTime_init p vel time = \<lparr>pvt_pos = p, pvt_v = vel, pvt_t = time\<rparr>"

definition DEFAULT_PROJECTILE_WEIGHT :: real where
  "DEFAULT_PROJECTILE_WEIGHT = 46.7"

definition DEFAULT_PROJECTILE_RADIUS :: real where
  "DEFAULT_PROJECTILE_RADIUS = 0.077545"

text \<open>The \<^verbatim>\<open>std::list\<close> of samples is a list whose last element is \<^verbatim>\<open>back()\<close>.\<close>

record Projectile =
  mass :: real
  radius :: real
  isActive :: bool
  flightPath :: "PositionVelocityTime list"

text \<open>\<^verbatim>\<open>Projectile()\<close> and \<^verbatim>\<open>Projectile(double mass, double radius)\<close>.\<close>

definition Projectile_default :: Projectile where
  "Projectile_default =
     \<lparr>mass = DEFAULT_PROJECTILE_WEIGHT, radius = DEFAULT_PROJECTILE_RADIUS,
      isActive = False, flightPath = []\<rparr>"

definition Projectile_init :: "real \<Rightarrow> real \<Rightarrow> Projectile" where
  "Projectile_init m r = \<lparr>mass = m, radius = r, isActive = False, flightPath = []\<rparr>"

definition getMass :: "Projectile \<Rightarrow> real" where
  "getMass p = mass p"

definition getRadius :: "Projectile \<Rightarrow> real" where
  "getRadius p = radius p"

definition setMass :: "real \<Rightarrow> Projectile \<Rightarrow> Projectile" where
  "setMass newMass p = p\<lparr>mass := (if newMass > 0 then newMass else mass p)\<rparr>"

definition setRadius :: "real \<Rightarrow> Projectile \<Rightarrow> Projectile" where
  "setRadius newRadius p = p\<lparr>radius := (if newRadius > 0 then newRadius else radius p)\<rparr>"

definition isFlying :: "Projectile \<Rightarrow> bool" where
  "isFlying p \<longleftrightarrow> isActive p \<and> flightPath p \<noteq> []"

definition reset :: "Projectile \<Rightarrow> Projectile" where
  "reset p = p\<lparr>mass := DEFAULT_PROJECTILE_WEIGHT, radius := DEFAULT_PROJECTILE_RADIUS,
              isActive := False, flightPath := []\<rparr>"

text \<open>\<^verbatim>\<open>Projectile::fire\<close>: two assertions, \<^verbatim>\<open>flightPath.clear()\<close>, the sample
  \<^verbatim>\<open>pvt(pos, Velocity(), time)\<close> with \<^verbatim>\<open>pvt.v.set(angle, muzzleVelocity)\<close>, then
  \<^verbatim>\<open>push_back\<close> and \<^verbatim>\<open>isActive = true\<close>.\<close>

definition fire :: "Position \<Rightarrow> Angle \<Rightarrow> real \<Rightarrow> real \<Rightarrow> Projectile \<Rightarrow> error + Projectile" where
  "fire p0 angle muzzleVel time p =
     (if \<not> (muzzleVel \<ge> 0) then Inl AssertionFailed
      else if \<not> (time \<ge> 0) then Inl AssertionFailed
      else let pvt = PositionVelocityTime_init p0 Velocity_default time
           in case Velocity_set angle muzzleVel (pvt_v pvt) of
                Inl e \<Rightarrow> Inl e
              | Inr vel \<Rightarrow> Inr (p\<lparr>flightPath := [] @ [pvt\<lparr>pvt_v := vel\<rparr>], isActive := True\<rparr>))"

text \<open>\<^verbatim>\<open>Projectile::calculateDragAcceleration\<close>.\<close>

definition calculateDragAcceleration ::
    "Projectile \<Rightarrow> PositionVelocityTime \<Rightarrow> error + Acceleration" where
  "calculateDragAcceleration p pvt =
     (let altitude = max 0 (getMetersY (pvt_pos pvt));
          speed = getSpeed (pvt_v pvt)
      in if speed = 0 then Inr (Acceleration_init 0 0)
         else case densityFromAltitude altitude of Inl e \<Rightarrow> Inl e | Inr density \<Rightarrow>
              case speedSoundFromAltitude altitude of Inl e \<Rightarrow> Inl e | Inr speedSound \<Rightarrow>
              let machNumber = speed / speedSound in
              case dragFromMach machNumber of Inl e \<Rightarrow> Inl e | Inr dragCoeff \<Rightarrow>
              case forceFromDrag density dragCoeff (radius p) speed of Inl e \<Rightarrow> Inl e | Inr dragForce \<Rightarrow>
              case accelerationFromForce dragForce (mass p) of Inl e \<Rightarrow> Inl e | Inr dragAccelMagnitude \<Rightarrow>
              let velX = getDX (pvt_v pvt);
                  velY = getDY (pvt_v pvt);
                  dragAccelX = - dragAccelMagnitude * (velX / speed);
                  dragAccelY = - dragAccelMagnitude * (velY / speed)
              in Inr (Acceleration_init dragAccelX dragAccelY))"

text \<open>\<^verbatim>\<open>Projectile::calculateTotalAcceleration\<close>.\<close>

definition calculateTotalAcceleration ::
    "Projectile \<Rightarrow> PositionVelocityTime \<Rightarrow> error + Acceleration" where
  "calculateTotalAcceleration p pvt =
     (let altitude = max 0 (getMetersY (pvt_pos pvt))
      in case gravityFromAltitude altitude of Inl e \<Rightarrow> Inl e | Inr gravity \<Rightarrow>
         let gravityAccel = Acceleration_init 0 (- gravity) in
         case calculateDragAcceleration p pvt of Inl e \<Rightarrow> Inl e | Inr dragAccel \<Rightarrow>
         Inr (Acceleration_plus gravityAccel dragAccel))"

text \<open>\<^verbatim>\<open>Projectile::advance\<close>. The two early returns leave the object as it is; the
  rest appends the new sample and clears \<^verbatim>\<open>isActive\<close> when its \<^verbatim>\<open>y\<close> is negative.\<close>

definition advance :: "real \<Rightarrow> Projectile \<Rightarrow> error + Projectile" where
  "advance simulationTime p =
     (if \<not> isActive p \<or> flightPath p = [] then Inr p
      else let currentPvt = last (flightPath p);
               deltaTime = simulationTime - pvt_t currentPvt
           in if deltaTime \<le> 0 then Inr p
              else case calculateTotalAcceleration p currentPvt of Inl e \<Rightarrow> Inl e | Inr totalAcceleration \<Rightarrow>
                   case Position_add totalAcceleration (pvt_v currentPvt) deltaTime (pvt_pos currentPvt) of
                     Inl e \<Rightarrow> Inl e | Inr newPos \<Rightarrow>
                   case Velocity_add totalAcceleration deltaTime (pvt_v currentPvt) of
                     Inl e \<Rightarrow> Inl e | Inr newV \<Rightarrow>
                   let newPvt = \<lparr>pvt_pos = newPos, pvt_v = newV, pvt_t = simulationTime\<rparr>;
                       p1 = p\<lparr>flightPath := flightPath p @ [newPvt]\<rparr>
                   in if getMetersY (pvt_pos newPvt) < 0
                      then Inr (p1\<lparr>isActive := False\<rparr>)
                      else Inr p1)"

text \<open>The accessors that read the last sample.\<close>

definition getPosition :: "Projectile \<Rightarrow> Position" where
  "getPosition p = (if flightPath p \<noteq> [] then pvt_pos (last (flightPath p)) else Position_default)"

definition getVelocity :: "Projectile \<Rightarrow> Velocity" where
  "getVelocity p = (if flightPath p \<noteq> [] then pvt_v (last (flightPath p)) else Velocity_default)"

definition getCurrentSpeed :: "Projectile \<Rightarrow> real" where
  "getCurrentSpeed p = (if flightPath p \<noteq> [] then getSpeed (pvt_v (last (flightPath p))) else 0)"

definition getCurrentAltitude :: "Projectile \<Rightarrow> real" where
  "getCurrentAltitude p =
     (if flightPath p \<noteq> [] then max 0 (getMetersY (pvt_pos (last (flightPath p)))) else 0)"

text \<open>A run of the simulation loop: \<^verbatim>\<open>advance\<close> called with one time after another,
  stopping at the first failed assertion.\<close>

fun advance_all :: "real list \<Rightarrow> Projectile \<Rightarrow> error + Projectile" where
  "advance_all [] p = Inr p"
| "advance_all (time # rest) p =
     (case advance time p of Inl e \<Rightarrow> Inl e | Inr p1 \<Rightarrow> advance_all rest p1)"

text \<open>The public operations that can change a projectile, as one datatype, and their
  application. The remaining public members are \<^verbatim>\<open>const\<close>.\<close>

datatype projectile_op =
    OpAdvance real
  | OpReset
  | OpFire Position Angle real real
  | OpSetMass real
  | OpSetRadius real

fun apply_projectile_op :: "projectile_op \<Rightarrow> Projectile \<Rightarrow> error + Projectile" where
  "apply_projectile_op (OpAdvance time) p = advance time p"
| "apply_projectile_op OpReset p = Inr (reset p)"
| "apply_projectile_op (OpFire p0 angle muzzleVel time) p = fire p0 angle muzzleVel time p"
| "apply_projectile_op (OpSetMass newMass) p = Inr (setMass newMass p)"
| "apply_projectile_op (OpSetRadius newRadius) p = Inr (setRadius newRadius p)"

text \<open>A sequence of public operations on one projectile, stopping at the first failed
  assertion.\<close>

fun apply_projectile_ops :: "projectile_op list \<Rightarrow> Projectile \<Rightarrow> error + Projectile" where
  "apply_projectile_ops [] p = Inr p"
| "apply_projectile_ops (opn # rest) p =
     (case apply_projectile_op opn p of Inl e \<Rightarrow> Inl e | Inr p1 \<Rightarrow> apply_projectile_ops rest p1)"

subsection \<open>howitzer.h\<close>

definition DEFAULT_MUZZLE_VELOCITY :: real where
  "DEFAULT_MUZZLE_VELOCITY = 827.00"

definition DEFAULT_ELEVATION_ANGLE :: real where
  "DEFAULT_ELEVATION_ANGLE = 45.0"

definition MIN_ELEVATION_ANGLE :: real where
  "MIN_ELEVATION_ANGLE = 0.0"

definition MAX_ELEVATION_ANGLE :: real where
  "MAX_ELEVATION_ANGLE = 85.0"

record Howitzer =
  position :: Position
  muzzleVelocity :: real
  elevation :: Angle
  lastFireTime :: real
  roundsFired :: int

definition Howitzer_default :: Howitzer where
  "Howitzer_default =
     \<lparr>position = Position_default, muzzleVelocity = DEFAULT_MUZZLE_VELOCITY,
      elevation = Angle_degrees DEFAULT_ELEVATION_ANGLE, lastFireTime = - 1, roundsFired = 0\<rparr>"

definition getElevation :: "Howitzer \<Rightarrow> Angle" where
  "getElevation h = elevation h"

text \<open>\<^verbatim>\<open>Howitzer::constrainElevation()\<close> and \<^verbatim>\<open>Howitzer::setElevation(double degrees)\<close>.\<close>

definition constrainElevation :: "Howitzer \<Rightarrow> Howitzer" where
  "constrainElevation h =
     (let degrees = getDegrees (elevation h)
      in if degrees < MIN_ELEVATION_ANGLE
         then h\<lparr>elevation := setDegrees MIN_ELEVATION_ANGLE (elevation h)\<rparr>
         else if degrees > MAX_ELEVATION_ANGLE
         then h\<lparr>elevation := setDegrees MAX_ELEVATION_ANGLE (elevation h)\<rparr>
         else h)"

definition setElevation :: "real \<Rightarrow> Howitzer \<Rightarrow> Howitzer" where
  "setElevation degrees h = constrainElevation (h\<lparr>elevation := setDegrees degrees (elevation h)\<rparr>)"

text \<open>\<^verbatim>\<open>Howitzer::rotate(double radians)\<close>:
  \<^verbatim>\<open>deltaeDegrees = radians * (180.0 / M_PI); newDegrees = currentDegrees + deltaeDegrees;\<close>\<close>

definition Howitzer_rotate :: "real \<Rightarrow> Howitzer \<Rightarrow> Howitzer" where
  "Howitzer_rotate rad h =
     (let deltaeDegrees = fl (rad * fl (180 / M_PI));
          currentDegrees = getDegrees (elevation h);
          newDegrees = fl (currentDegrees + deltaeDegrees)
      in if newDegrees \<ge> MIN_ELEVATION_ANGLE \<and> newDegrees \<le> MAX_ELEVATION_ANGLE
         then h\<lparr>elevation := Angle_add rad (elevation h)\<rparr>
         else if newDegrees < MIN_ELEVATION_ANGLE
         then h\<lparr>elevation := setDegrees MIN_ELEVATION_ANGLE (elevation h)\<rparr>
         else if newDegrees > MAX_ELEVATION_ANGLE
         then h\<lparr>elevation := setDegrees MAX_ELEVATION_ANGLE (elevation h)\<rparr>
         else h)"

text \<open>\<^verbatim>\<open>Howitzer::raise(double radians)\<close>: the delta is negated when the barrel points
  to the right.\<close>

definition Howitzer_raise :: "real \<Rightarrow> Howitzer \<Rightarrow> Howitzer" where
  "Howitzer_raise rad h =
     (let deltaeDegrees = fl (rad * fl (180 / M_PI));
          currentDegrees = getDegrees (elevation h);
          actualDelta = (if isRight (elevation h) then - deltaeDegrees else deltaeDegrees);
          newDegrees = fl (currentDegrees + actualDelta)
      in if newDegrees \<ge> MIN_ELEVATION_ANGLE \<and> newDegrees \<le> MAX_ELEVATION_ANGLE
         then (if isRight (elevation h)
               then h\<lparr>elevation := Angle_add (- rad) (elevation h)\<rparr>
               else h\<lparr>elevation := Angle_add rad (elevation h)\<rparr>)
         else if newDegrees < MIN_ELEVATION_ANGLE
         then h\<lparr>elevation := setDegrees MIN_ELEVATION_ANGLE (elevation h)\<rparr>
         else if newDegrees > MAX_ELEVATION_ANGLE
         then h\<lparr>elevation := setDegrees MAX_ELEVATION_ANGLE (elevation h)\<rparr>
         else h)"

subsection \<open>Fixtures\<close>

text \<open>The set-up of the unit test \<^verbatim>\<open>advance_fall\<close> (testProjectile.h): a
  default-constructed projectile, on whose flight path the test pushes the sample
  \<open>pos = (100, 200)\<close>, \<open>v = (0, 0)\<close>, \<open>t = 100\<close>. The test leaves \<^verbatim>\<open>isActive\<close> as the
  constructor set it.\<close>

definition advance_fall_setup :: Projectile where
  "advance_fall_setup =
     Projectile_default\<lparr>flightPath := flightPath Projectile_default @
        [PositionVelocityTime_default\<lparr>pvt_pos := \<lparr>pos_x = 100, pos_y = 200\<rparr>,
                                       pvt_v := \<lparr>dx = 0, dy = 0\<rparr>, pvt_t := 100\<rparr>]\<rparr>"

text \<open>The projectile after \<^verbatim>\<open>Projectile p; p.fire(Position(a, b), Angle(), 0.0, t0);\<close>:
  one sample, at rest.\<close>

definition fired_at_rest :: "real \<Rightarrow> real \<Rightarrow> real \<Rightarrow> Projectile" where
  "fired_at_rest a b t0 =
     Projectile_default\<lparr>flightPath := [\<lparr>pvt_pos = \<lparr>pos_x = a, pos_y = b\<rparr>,
                                         pvt_v = \<lparr>dx = 0, dy = 0\<rparr>, pvt_t = t0\<rparr>],
                        isActive := True\<rparr>"

subsection \<open>Notation for the statements\<close>

text \<open>The value of the two-point interpolation between the knots \<open>i\<close> and \<open>i + 1\<close> of
  a table: \<open>r0 + (r1 - r0) * (d - d0) / (d1 - d0)\<close>.\<close>

abbreviation interp_formula :: "Mapping list \<Rightarrow> nat \<Rightarrow> real \<Rightarrow> real" where
  "interp_formula m i d \<equiv>
     range_val (m ! i) + (range_val (m ! (i + 1)) - range_val (m ! i)) * (d - domain (m ! i))
       / (domain (m ! (i + 1)) - domain (m ! i))"

section \<open>Table interpolation\<close>


lemma sdiv2_nonneg: "0 \<le> (k::int) \<Longrightarrow> k sdiv 2 = k div 2"
  by (simp add: signed_divide_int_def sgn_if)

lemma search_interval_bracket:
  assumes "0 \<le> l" "l < r" "domain (m ! nat l) \<le> d" "d < domain (m ! nat r)"
  shows "\<exists>k. search_interval m d l r = (k, k + 1) \<and> l \<le> k \<and> k + 1 \<le> r
            \<and> domain (m ! nat k) \<le> d \<and> d < domain (m ! nat (k + 1))"
  using assms
proof (induction m d l r rule: search_interval.induct)
  case (1 mapping d left right)
  show ?case
  proof (cases "left < right - 1")
    case False
    with "1.prems" have "right = left + 1" by simp
    with False "1.prems" show ?thesis by (simp add: search_interval.simps[of mapping d left right])
  next
    case True
    define mid where "mid = left + (right - left) sdiv 2"
    have mid: "left < mid" "mid < right" using True by (simp_all add: mid_def sdiv2_nonneg)
    show ?thesis
    proof (cases "domain (mapping ! nat mid) \<le> d")
      case le: True
      from "1.IH"(1)[OF True mid_def le] mid "1.prems" le
      obtain k where "search_interval mapping d mid right = (k, k + 1)" "mid \<le> k" "k + 1 \<le> right"
        "domain (mapping ! nat k) \<le> d" "d < domain (mapping ! nat (k + 1))" by auto
      with True le mid show ?thesis
        by (subst search_interval.simps) (auto simp: mid_def[symmetric] Let_def)
    next
      case gt: False
      from "1.IH"(2)[OF True mid_def gt] mid "1.prems" gt
      obtain k where "search_interval mapping d left mid = (k, k + 1)" "left \<le> k" "k + 1 \<le> mid"
        "domain (mapping ! nat k) \<le> d" "d < domain (mapping ! nat (k + 1))" by auto
      with True gt mid show ?thesis
        by (subst search_interval.simps) (auto simp: mid_def[symmetric] Let_def)
    qed
  qed
qed

lemma strict_domains_mono:
  assumes "sorted_wrt (<) (map domain m)" "i < j" "j < length m"
  shows "domain (m ! i) < domain (m ! j)"
  using assms sorted_wrt_nth_less[of "(<)" "map domain m" i j] by simp

lemma strict_domains_le:
  assumes "sorted_wrt (<) (map domain m)" "i < length m" "j < length m" "domain (m ! i) \<le> domain (m ! j)"
  shows "i \<le> j"
  using assms strict_domains_mono[of m j i] by (cases "i \<le> j") auto


lemma interp_interior:
  assumes n: "m \<noteq> []" and lo: "domain (m ! 0) < d" and hi: "d < domain (m ! (length m - 1))"
  shows "\<exists>k. k + 1 < length m \<and> domain (m ! k) \<le> d \<and> d < domain (m ! (k + 1))
            \<and> linearInterpolation_map m d = Inr (interp_formula m k d)"
proof -
  from n lo hi have len: "1 < length m" by (cases "length m = 1") (auto simp: Suc_lessI)
  have nat1: "nat (int (length m) - 1) = length m - 1" by simp
  from search_interval_bracket[of 0 "int (length m) - 1" m d] lo hi len
  obtain k where k: "search_interval m d 0 (int (length m) - 1) = (k, k + 1)" "0 \<le> k"
    "k + 1 \<le> int (length m) - 1" "domain (m ! nat k) \<le> d" "d < domain (m ! nat (k + 1))"
    by (auto simp: nat1)
  have nk: "nat (k + 1) = nat k + 1" using k(2) by simp
  have "linearInterpolation_map m d = Inr (interp_formula m (nat k) d)"
    using n lo hi k by (simp add: linearInterpolation_map_def nat1 linearInterpolation_def nk)
  moreover have "nat k + 1 < length m" using k(2,3) by linarith
  ultimately show ?thesis using k(4,5) nk by auto
qed

lemma interp_bracket:
  assumes sorted: "sorted_wrt (<) (map domain m)" and i: "i + 1 < length m"
    and lo: "domain (m ! i) \<le> d" and hi: "d \<le> domain (m ! (i + 1))"
  shows "linearInterpolation_map m d = Inr (interp_formula m i d)"
proof -
  from i have n: "m \<noteq> []" by auto
  have nat1: "nat (int (length m) - 1) = length m - 1" by simp
  have di: "domain (m ! i) < domain (m ! (i + 1))"
    using strict_domains_mono[OF sorted, of i "i + 1"] i by simp
  consider (low) "d \<le> domain (m ! 0)" | (high) "domain (m ! 0) < d" "domain (m ! (length m - 1)) \<le> d"
    | (mid) "domain (m ! 0) < d" "d < domain (m ! (length m - 1))" by linarith
  then show ?thesis
  proof cases
    case low
    with lo have "domain (m ! i) \<le> domain (m ! 0)" by simp
    with strict_domains_le[OF sorted, of i 0] i n have i0: "i = 0" by simp
    with low lo have "d = domain (m ! 0)" by simp
    with i0 n show ?thesis by (simp add: linearInterpolation_map_def)
  next
    case high
    with hi have "domain (m ! (length m - 1)) \<le> domain (m ! (i + 1))" by simp
    with strict_domains_le[OF sorted, of "length m - 1" "i + 1"] i n have i1: "i + 1 = length m - 1" by simp
    with high hi have d: "d = domain (m ! (i + 1))" by simp
    have "linearInterpolation_map m d = Inr (range_val (m ! (i + 1)))"
      using n high i1 by (simp add: linearInterpolation_map_def nat1)
    moreover have "interp_formula m i d = range_val (m ! (i + 1))"
      using di by (simp add: d)
    ultimately show ?thesis by simp
  next
    case mid
    from interp_interior[OF n mid] obtain k where k: "k + 1 < length m" "domain (m ! k) \<le> d"
      "d < domain (m ! (k + 1))" "linearInterpolation_map m d = Inr (interp_formula m k d)" by blast
    have "domain (m ! i) < domain (m ! (k + 1))" using lo k(3) by simp
    then have "i < k + 1" using strict_domains_mono[OF sorted, of "k + 1" i] i k(1)
      by (cases "i < k + 1") (auto simp: not_less le_less)
    moreover have "domain (m ! k) \<le> domain (m ! (i + 1))" using hi k(2) by simp
    with strict_domains_le[OF sorted, of k "i + 1"] i k(1) have "k \<le> i + 1" by simp
    ultimately consider "i = k" | "i + 1 = k" by linarith
    then show ?thesis
    proof cases
      case 1 with k(4) show ?thesis by simp
    next
      case 2
      with hi k(2) have d: "d = domain (m ! (i + 1))" by simp
      have "interp_formula m i d = range_val (m ! (i + 1))" using di by (simp add: d)
      moreover have "interp_formula m k d = range_val (m ! k)" using 2 by (simp add: d)
      ultimately show ?thesis using k(4) 2 by simp
    qed
  qed
qed


text \<open>
  Claim C2. For a table that is not empty and whose domains are strictly increasing, and
  any query \<open>d\<close>: at the domain of a knot the interpolation returns the range of that
  knot; at or below the first domain it returns the first range; at or above the last
  domain it returns the last range; strictly between the first and the last domain there
  is exactly one pair of adjacent knots \<open>(d0, r0)\<close>, \<open>(d1, r1)\<close> with \<open>d0 \<le> d < d1\<close>, and
  the result is \<open>r0 + (r1 - r0) * (d - d0) / (d1 - d0)\<close> for that pair (and for the pair
  to its left when \<open>d\<close> is its right knot, where the two values agree). No assertion
  fails.
\<close>

theorem linearInterpolation_map_contract:
  assumes ne: "mapping \<noteq> []" and sorted: "sorted_wrt (<) (map domain mapping)"
  shows "(\<forall>k < length mapping.
            linearInterpolation_map mapping (domain (mapping ! k)) = Inr (range_val (mapping ! k)))
       \<and> (d \<le> domain (hd mapping) \<longrightarrow> linearInterpolation_map mapping d = Inr (range_val (hd mapping)))
       \<and> (d \<ge> domain (last mapping) \<longrightarrow> linearInterpolation_map mapping d = Inr (range_val (last mapping)))
       \<and> (domain (hd mapping) < d \<and> d < domain (last mapping) \<longrightarrow>
            (\<exists>!i. i + 1 < length mapping \<and> domain (mapping ! i) \<le> d \<and> d < domain (mapping ! (i + 1)))
          \<and> (\<forall>i. i + 1 < length mapping \<and> domain (mapping ! i) \<le> d \<and> d \<le> domain (mapping ! (i + 1)) \<longrightarrow>
                 linearInterpolation_map mapping d =
                   Inr (range_val (mapping ! i)
                        + (range_val (mapping ! (i + 1)) - range_val (mapping ! i)) * (d - domain (mapping ! i))
                          / (domain (mapping ! (i + 1)) - domain (mapping ! i)))))"
proof -
  have h: "hd mapping = mapping ! 0" and l: "last mapping = mapping ! (length mapping - 1)"
    using ne by (simp_all add: hd_conv_nth last_conv_nth)
  have nat1: "nat (int (length mapping) - 1) = length mapping - 1" by simp
  have first: "linearInterpolation_map mapping d = Inr (range_val (hd mapping))"
    if "d \<le> domain (hd mapping)" for d
    using that ne by (simp add: linearInterpolation_map_def h)
  have final: "linearInterpolation_map mapping d = Inr (range_val (last mapping))"
    if "d \<ge> domain (last mapping)" for d
  proof (cases "d \<le> domain (mapping ! 0)")
    case False
    with that ne show ?thesis by (simp add: linearInterpolation_map_def l nat1)
  next
    case True
    with that have "domain (mapping ! (length mapping - 1)) \<le> domain (mapping ! 0)" by (simp add: l)
    with strict_domains_le[OF sorted, of "length mapping - 1" 0] ne have "length mapping - 1 = 0" by simp
    with True ne show ?thesis by (simp add: linearInterpolation_map_def l)
  qed
  have knot: "linearInterpolation_map mapping (domain (mapping ! k)) = Inr (range_val (mapping ! k))"
    if k: "k < length mapping" for k
  proof (cases "k + 1 < length mapping")
    case True
    from interp_bracket[OF sorted True, of "domain (mapping ! k)"]
      strict_domains_mono[OF sorted, of k "k + 1"] True
    show ?thesis by simp
  next
    case False
    with k have "k = length mapping - 1" by simp
    with final[of "domain (mapping ! k)"] show ?thesis by (simp add: l)
  qed
  have uniq: "\<exists>!i. i + 1 < length mapping \<and> domain (mapping ! i) \<le> d \<and> d < domain (mapping ! (i + 1))"
    if "domain (hd mapping) < d" "d < domain (last mapping)"
  proof -
    from interp_interior[OF ne, of d] that obtain k where
      k: "k + 1 < length mapping" "domain (mapping ! k) \<le> d" "d < domain (mapping ! (k + 1))"
      by (auto simp: h l)
    show ?thesis
    proof (rule ex1I[of _ k])
      show "k + 1 < length mapping \<and> domain (mapping ! k) \<le> d \<and> d < domain (mapping ! (k + 1))"
        using k by simp
    next
      fix i assume i: "i + 1 < length mapping \<and> domain (mapping ! i) \<le> d \<and> d < domain (mapping ! (i + 1))"
      then have "domain (mapping ! i) < domain (mapping ! (k + 1))" using k by simp
      then have a: "i < k + 1" using strict_domains_mono[OF sorted, of "k + 1" i] i k(1)
        by (cases "i < k + 1") (auto simp: not_less le_less)
      from i k have "domain (mapping ! k) < domain (mapping ! (i + 1))" by simp
      then have b: "k < i + 1" using strict_domains_mono[OF sorted, of "i + 1" k] i k(1)
        by (cases "k < i + 1") (auto simp: not_less le_less)
      from a b show "i = k" by simp
    qed
  qed
  show ?thesis
    using first[of d] final[of d] knot uniq interp_bracket[OF sorted, of _ d] by blast
qed

text \<open>The contract at the first three knots of the gravity table: between two knots
  (200 m), at a knot (1000 m), below the first knot and above the last.\<close>

theorem linearInterpolation_map_contract_witness:
  "linearInterpolation_map [Mapping_init 0 9.807, Mapping_init 1000 9.804, Mapping_init 2000 9.801] 200
     = Inr 9.8064
   \<and> linearInterpolation_map [Mapping_init 0 9.807, Mapping_init 1000 9.804, Mapping_init 2000 9.801] 1000
     = Inr 9.804
   \<and> linearInterpolation_map [Mapping_init 0 9.807, Mapping_init 1000 9.804, Mapping_init 2000 9.801] (- 5)
     = Inr 9.807
   \<and> linearInterpolation_map [Mapping_init 0 9.807, Mapping_init 1000 9.804, Mapping_init 2000 9.801] 2500
     = Inr 9.801"
proof -
  let ?m = "[Mapping_init 0 9.807, Mapping_init 1000 9.804, Mapping_init 2000 9.801]"
  have ne: "?m \<noteq> []" by simp
  have sorted: "sorted_wrt (<) (map domain ?m)" by (simp add: Mapping_init_def)
  have a: "linearInterpolation_map ?m 200 = Inr 9.8064"
    using linearInterpolation_map_contract[OF ne sorted, of 200]
    by (auto simp: Mapping_init_def dest!: spec[of _ 0])
  have b: "linearInterpolation_map ?m 1000 = Inr 9.804"
    using linearInterpolation_map_contract[OF ne sorted, of 1000]
    by (auto simp: Mapping_init_def dest!: spec[of _ 1])
  have c: "linearInterpolation_map ?m (- 5) = Inr 9.807"
    using linearInterpolation_map_contract[OF ne sorted, of "- 5"]
    by (simp add: Mapping_init_def)
  have d: "linearInterpolation_map ?m 2500 = Inr 9.801"
    using linearInterpolation_map_contract[OF ne sorted, of 2500]
    by (simp add: Mapping_init_def)
  from a b c d show ?thesis by blast
qed


section \<open>Rounding to a double\<close>

lemma round_ties_even_near:
  assumes "\<bar>q - of_int n\<bar> < 1 / 2"
  shows "round_ties_even q = n"
proof -
  from assms have b: "of_int n - 1 / 2 < q" "q < of_int n + 1 / 2" by linarith+
  consider "\<lfloor>q\<rfloor> = n" | "\<lfloor>q\<rfloor> = n - 1"
  proof (cases "of_int n \<le> q")
    case True
    with b have "\<lfloor>q\<rfloor> = n" by (intro floor_unique) simp_all
    then show ?thesis using that by blast
  next
    case False
    with b have "\<lfloor>q\<rfloor> = n - 1" by (intro floor_unique) simp_all
    then show ?thesis using that by blast
  qed
  then show ?thesis
  proof cases
    case 1
    with b show ?thesis by (simp add: round_ties_even_def Let_def)
  next
    case 2
    with b show ?thesis by (simp add: round_ties_even_def Let_def)
  qed
qed

lemma powr_of_int_eq_powi: "(2::real) powr of_int k = 2 powi k"
  by (simp add: powr_real_of_int power_int_def power_one_over inverse_eq_divide)

text \<open>How a rounding is computed: the binade \<open>k\<close> of the argument and the integer
  nearest to the argument in units of \<open>2\<^sup>k\<^sup>-\<^sup>5\<^sup>2\<close>.\<close>

lemma fl_eqI:
  assumes "2 powi k \<le> \<bar>a\<bar>" "\<bar>a\<bar> < 2 powi (k + 1)" "- 1022 \<le> k"
    and "\<bar>a / 2 powi (k - 52) - of_int n\<bar> < 1 / 2"
  shows "fl a = of_int n * 2 powi (k - 52)"
proof -
  have pos: "0 < \<bar>a\<bar>" using assms(1) zero_less_power_int[of "2::real" k] by linarith
  then have nz: "a \<noteq> 0" by simp
  have "(2::real) powr (of_int k + 1) = 2 powi (k + 1)"
    using powr_of_int_eq_powi[of "k + 1"] by simp
  then have "\<lfloor>log 2 \<bar>a\<bar>\<rfloor> = k"
    using assms(1,2) pos by (simp add: floor_log_eq_powr_iff powr_of_int_eq_powi)
  then have "max \<lfloor>log 2 \<bar>a\<bar>\<rfloor> (- 1022) - 52 = k - 52" using assms(3) by simp
  then show ?thesis
    using nz round_ties_even_near[OF assms(4)] by (simp add: fl_def Let_def)
qed

lemma fl_zero: "fl 0 = 0"
  by (simp add: fl_def)

lemma fl_two_pi: "fl (2 * M_PI) = 884279719003555 / 2 ^ 47"
  using fl_eqI[of 2 "2 * M_PI" 7074237752028440] by (simp add: M_PI_def)

lemma fl_180_over_pi: "fl (180 / M_PI) = 1007958012753983 / 2 ^ 44"
  using fl_eqI[of 5 "180 / M_PI" 8063664102031864] by (simp add: M_PI_def)

lemma fmod_zero: "fmod 0 b = 0"
  by (simp add: fmod_def)

lemma fmod_self: "b \<noteq> 0 \<Longrightarrow> fmod b b = 0"
  by (simp add: fmod_def)

lemma fmod_small:
  assumes "0 \<le> a" "a < b"
  shows "fmod a b = a"
proof -
  have "0 \<le> a / b" "a / b < 1" using assms by simp_all
  then have "\<lfloor>a / b\<rfloor> = 0" by (intro floor_unique) simp_all
  with \<open>0 \<le> a / b\<close> show ?thesis by (simp add: fmod_def)
qed

lemma fmod_small_neg:
  assumes "a < 0" "- b < a"
  shows "fmod a b = a"
proof -
  have b: "0 < b" using assms by simp
  then have "a / b < 0" "- 1 < a / b" using assms by (simp_all add: divide_less_0_iff pos_less_divide_eq)
  then have "\<lceil>a / b\<rceil> = 0" by (intro ceiling_unique) simp_all
  with \<open>a / b < 0\<close> show ?thesis by (simp add: fmod_def)
qed

lemma Angle_normalize_zero: "Angle_normalize 0 = 0"
  by (simp add: Angle_normalize_def fmod_zero)

lemma Angle_normalize_small:
  assumes "0 \<le> rad" "rad < 884279719003555 / 2 ^ 47"
  shows "Angle_normalize rad = rad"
  using assms fmod_small[of rad "884279719003555 / 2 ^ 47"]
  by (simp add: Angle_normalize_def fl_two_pi)

section \<open>Normalisation of an angle\<close>

lemma fl_tiny: "fl (0 + - (1 / 2 ^ 66)) = - (1 / 2 ^ 66)"
  using fl_eqI[of "- 66" "- (1 / 2 ^ 66)" "- 4503599627370496"] by simp

lemma fl_tiny_plus_two_pi: "fl (- (1 / 2 ^ 66) + 884279719003555 / 2 ^ 47) = 884279719003555 / 2 ^ 47"
  using fl_eqI[of 2 "- (1 / 2 ^ 66) + 884279719003555 / 2 ^ 47" 7074237752028440] by simp

lemma normalize_tiny: "Angle_normalize (- (1 / 2 ^ 66)) = fl (2 * M_PI)"
proof -
  have "fmod (- (1 / 2 ^ 66)) (884279719003555 / 2 ^ 47) = - (1 / 2 ^ 66)"
    by (rule fmod_small_neg) simp_all
  then show ?thesis
    unfolding Angle_normalize_def Let_def fl_two_pi by (simp only: fl_tiny_plus_two_pi) simp
qed

lemma normalize_two_pi: "Angle_normalize (fl (2 * M_PI)) = 0"
  using fmod_self[of "884279719003555 / 2 ^ 47 :: real"]
  by (simp add: Angle_normalize_def fl_two_pi)

text \<open>
  Claim C7. The comment of \<^verbatim>\<open>Angle::normalize\<close> names the range \<open>[0, 2\<pi>)\<close>, and the
  upper end of the range as the program computes it is the double \<^verbatim>\<open>2.0 * M_PI\<close>. For
  the input \<open>-2\<^sup>-\<^sup>6\<^sup>6\<close> the call \<^verbatim>\<open>fmod\<close> returns the input, the branch for a negative
  remainder adds \<^verbatim>\<open>2.0 * M_PI\<close>, and the sum rounds to \<^verbatim>\<open>2.0 * M_PI\<close>: the result is
  the excluded end of the range, not a value below it. Normalising that result once
  more gives 0, so the function is not idempotent. The mutators \<^verbatim>\<open>setRadians\<close> and
  \<^verbatim>\<open>add\<close> store the value \<^verbatim>\<open>2.0 * M_PI\<close> in an angle that was 0.
\<close>

theorem normalize_reaches_two_pi:
  "Angle_normalize (- (1 / 2 ^ 66)) = fl (2 * M_PI)
   \<and> \<not> Angle_normalize (- (1 / 2 ^ 66)) < fl (2 * M_PI)
   \<and> Angle_normalize (Angle_normalize (- (1 / 2 ^ 66))) = 0
   \<and> Angle_normalize (Angle_normalize (- (1 / 2 ^ 66))) \<noteq> Angle_normalize (- (1 / 2 ^ 66))
   \<and> radians (setRadians (- (1 / 2 ^ 66)) Angle_default) = fl (2 * M_PI)
   \<and> radians (Angle_add (- (1 / 2 ^ 66)) Angle_default) = fl (2 * M_PI)"
proof -
  have nz: "fl (2 * M_PI) \<noteq> 0" unfolding fl_two_pi by simp
  have "radians (Angle_add (- (1 / 2 ^ 66)) Angle_default)
          = Angle_normalize (fl (0 + - (1 / 2 ^ 66)))"
    by (simp add: Angle_add_def Angle_default_def)
  then have a: "radians (Angle_add (- (1 / 2 ^ 66)) Angle_default) = fl (2 * M_PI)"
    unfolding fl_tiny normalize_tiny .
  have "radians (setRadians rad b) = Angle_normalize rad" for rad b
    by (simp add: setRadians_def)
  then have s: "radians (setRadians (- (1 / 2 ^ 66)) Angle_default) = fl (2 * M_PI)"
    by (simp only: normalize_tiny)
  show ?thesis
    unfolding normalize_tiny normalize_two_pi using nz a s
    by (simp only: normalize_tiny simp_thms less_irrefl not_False_eq_True)
qed

section \<open>Elevation of the howitzer\<close>

lemma convertToRadians_eq:
  assumes "fl (M_PI / 180) = c" "fl (degrees * c) = r" "0 \<le> r" "r < 884279719003555 / 2 ^ 47"
  shows "convertToRadians degrees = r"
  using assms by (simp add: convertToRadians_def Angle_normalize_small)

lemma convertToDegrees_eq:
  assumes "0 \<le> r" "r < 884279719003555 / 2 ^ 47" "fl (180 / M_PI) = c" "fl (r * c) = d"
  shows "convertToDegrees r = d"
  using assms by (simp add: convertToDegrees_def Angle_normalize_small)

lemma Angle_add_eq:
  assumes "radians a = r" "fl (r + delta) = s" "0 \<le> s" "s < 884279719003555 / 2 ^ 47"
  shows "radians (Angle_add delta a) = s"
  using assms by (simp add: Angle_add_def Angle_normalize_small)

lemma Howitzer_rotate_in_range:
  assumes "getDegrees (elevation h) = cur" "fl (rad * fl (180 / M_PI)) = dd" "fl (cur + dd) = new"
    and "0 \<le> new" "new \<le> 85"
  shows "elevation (Howitzer_rotate rad h) = Angle_add rad (elevation h)"
  using assms
  by (simp add: Howitzer_rotate_def Let_def MIN_ELEVATION_ANGLE_def MAX_ELEVATION_ANGLE_def)

lemma Howitzer_raise_in_range_right:
  assumes "isRight (elevation h)"
    and "getDegrees (elevation h) = cur" "fl (rad * fl (180 / M_PI)) = dd" "fl (cur + - dd) = new"
    and "0 \<le> new" "new \<le> 85"
  shows "elevation (Howitzer_raise rad h) = Angle_add (- rad) (elevation h)"
  using assms
  by (simp add: Howitzer_raise_def Let_def MIN_ELEVATION_ANGLE_def MAX_ELEVATION_ANGLE_def)

lemma setElevation_in_range:
  assumes "getDegrees (setDegrees degrees (elevation h)) = d" "0 \<le> d" "d \<le> 85"
  shows "elevation (setElevation degrees h) = setDegrees degrees (elevation h)"
  using assms
  by (simp add: setElevation_def constrainElevation_def Let_def MIN_ELEVATION_ANGLE_def
      MAX_ELEVATION_ANGLE_def)

subsection \<open>The roundings of one run\<close>

lemma fl_pi_over_180: "fl (M_PI / 180) = 5030569068109113 / 2 ^ 58"
  using fl_eqI[of "- 6" "M_PI / 180" 5030569068109113] by (simp add: M_PI_def)

lemma fl_literal_032: "fl 0.32 = 5764607523034235 / 2 ^ 54"
  using fl_eqI[of "- 2" "0.32" 5764607523034235] by simp

lemma fl_literal_delta: "fl 1.4779448105887985 = 6656071698241871 / 2 ^ 52"
  using fl_eqI[of 0 "1.4779448105887985" 6656071698241871] by simp

text \<open>\<^verbatim>\<open>0.32 * (M_PI / 180.0)\<close>, the radians that \<^verbatim>\<open>setDegrees(0.32)\<close> stores.\<close>

lemma radians_032:
  "fl (5764607523034235 / 2 ^ 54 * (5030569068109113 / 2 ^ 58)) = 6439128407179665 / 2 ^ 60"
  using fl_eqI[of "- 8" "5764607523034235 / 2 ^ 54 * (5030569068109113 / 2 ^ 58)" 6439128407179665]
  by simp

text \<open>Back to degrees, \<^verbatim>\<open>radians * (180.0 / M_PI)\<close>: the double 0.32 again.\<close>

lemma degrees_032:
  "fl (6439128407179665 / 2 ^ 60 * (1007958012753983 / 2 ^ 44)) = 5764607523034235 / 2 ^ 54"
  using fl_eqI[of "- 2" "6439128407179665 / 2 ^ 60 * (1007958012753983 / 2 ^ 44)" 5764607523034235]
  by simp

text \<open>The delta in degrees, \<^verbatim>\<open>1.4779448105887985 * (180.0 / M_PI)\<close>: the double 84.68.\<close>

lemma delta_degrees:
  "fl (6656071698241871 / 2 ^ 52 * (1007958012753983 / 2 ^ 44)) = 1489706314241147 / 2 ^ 44"
  using fl_eqI[of 6 "6656071698241871 / 2 ^ 52 * (1007958012753983 / 2 ^ 44)" 5958825256964588]
  by simp

lemma delta_degrees_neg:
  "fl (- (6656071698241871 / 2 ^ 52) * (1007958012753983 / 2 ^ 44)) = - (1489706314241147 / 2 ^ 44)"
  using fl_eqI[of 6 "- (6656071698241871 / 2 ^ 52) * (1007958012753983 / 2 ^ 44)" "- 5958825256964588"]
  by simp

text \<open>\<^verbatim>\<open>newDegrees = currentDegrees + deltaeDegrees\<close>: the sum of the doubles 0.32 and
  84.68 rounds to exactly 85.\<close>

lemma new_degrees: "fl (5764607523034235 / 2 ^ 54 + 1489706314241147 / 2 ^ 44) = 85"
  using fl_eqI[of 6 "5764607523034235 / 2 ^ 54 + 1489706314241147 / 2 ^ 44" 5981343255101440]
  by simp

text \<open>\<^verbatim>\<open>radians + delta\<close> in \<^verbatim>\<open>Angle::add\<close>, and the degrees of the sum: one unit in the
  last place above 85.\<close>

lemma new_radians:
  "fl (6439128407179665 / 2 ^ 60 + 6656071698241871 / 2 ^ 52) = 6681224543582417 / 2 ^ 52"
  using fl_eqI[of 0 "6439128407179665 / 2 ^ 60 + 6656071698241871 / 2 ^ 52" 6681224543582417]
  by simp

lemma degrees_new:
  "fl (6681224543582417 / 2 ^ 52 * (1007958012753983 / 2 ^ 44)) = 85 + 1 / 2 ^ 46"
  using fl_eqI[of 6 "6681224543582417 / 2 ^ 52 * (1007958012753983 / 2 ^ 44)" 5981343255101441]
  by simp

subsection \<open>From 0.32 degrees by 1.4779448105887985 radians\<close>

lemma setDegrees_032:
  "radians (setDegrees (fl 0.32) a) = 6439128407179665 / 2 ^ 60"
proof -
  have "fl (fl 0.32 * (5030569068109113 / 2 ^ 58)) = 6439128407179665 / 2 ^ 60"
    unfolding fl_literal_032 by (rule radians_032)
  from convertToRadians_eq[OF fl_pi_over_180 this] show ?thesis by (simp add: setDegrees_def)
qed

lemma getDegrees_032:
  assumes "radians a = 6439128407179665 / 2 ^ 60"
  shows "getDegrees a = 5764607523034235 / 2 ^ 54"
  unfolding getDegrees_def assms
  by (rule convertToDegrees_eq[OF _ _ fl_180_over_pi degrees_032]) simp_all

lemma getDegrees_new:
  assumes "radians a = 6681224543582417 / 2 ^ 52"
  shows "getDegrees a = 85 + 1 / 2 ^ 46"
  unfolding getDegrees_def assms
  by (rule convertToDegrees_eq[OF _ _ fl_180_over_pi degrees_new]) simp_all

lemma elevation_032:
  "radians (elevation (setElevation (fl 0.32) h)) = 6439128407179665 / 2 ^ 60"
proof -
  have "elevation (setElevation (fl 0.32) h) = setDegrees (fl 0.32) (elevation h)"
    by (rule setElevation_in_range[OF getDegrees_032[OF setDegrees_032]]) simp_all
  then show ?thesis by (simp only: setDegrees_032)
qed

lemma rotate_from_032:
  assumes "radians (elevation h) = 6439128407179665 / 2 ^ 60"
  shows "radians (elevation (Howitzer_rotate (fl 1.4779448105887985) h)) = 6681224543582417 / 2 ^ 52"
proof -
  have d: "fl (fl 1.4779448105887985 * fl (180 / M_PI)) = 1489706314241147 / 2 ^ 44"
    unfolding fl_literal_delta fl_180_over_pi by (rule delta_degrees)
  have "elevation (Howitzer_rotate (fl 1.4779448105887985) h)
          = Angle_add (fl 1.4779448105887985) (elevation h)"
    by (rule Howitzer_rotate_in_range[OF getDegrees_032[OF assms] d new_degrees]) simp_all
  moreover have "fl (6439128407179665 / 2 ^ 60 + fl 1.4779448105887985) = 6681224543582417 / 2 ^ 52"
    unfolding fl_literal_delta by (rule new_radians)
  from Angle_add_eq[OF assms this]
  have "radians (Angle_add (fl 1.4779448105887985) (elevation h)) = 6681224543582417 / 2 ^ 52"
    by simp
  ultimately show ?thesis by (simp only:)
qed

lemma raise_from_032:
  assumes "radians (elevation h) = 6439128407179665 / 2 ^ 60"
  shows "radians (elevation (Howitzer_raise (- fl 1.4779448105887985) h)) = 6681224543582417 / 2 ^ 52"
proof -
  have r: "isRight (elevation h)" unfolding isRight_def assms by (simp add: M_PI_def)
  have d: "fl (- fl 1.4779448105887985 * fl (180 / M_PI)) = - (1489706314241147 / 2 ^ 44)"
    unfolding fl_literal_delta fl_180_over_pi by (rule delta_degrees_neg)
  have n: "fl (5764607523034235 / 2 ^ 54 + - (- (1489706314241147 / 2 ^ 44))) = 85"
    unfolding minus_minus by (rule new_degrees)
  have "elevation (Howitzer_raise (- fl 1.4779448105887985) h)
          = Angle_add (- (- fl 1.4779448105887985)) (elevation h)"
    by (rule Howitzer_raise_in_range_right[OF r getDegrees_032[OF assms] d n]) simp_all
  moreover have "fl (6439128407179665 / 2 ^ 60 + - (- fl 1.4779448105887985)) = 6681224543582417 / 2 ^ 52"
    unfolding minus_minus fl_literal_delta by (rule new_radians)
  from Angle_add_eq[OF assms this]
  have "radians (Angle_add (- (- fl 1.4779448105887985)) (elevation h)) = 6681224543582417 / 2 ^ 52"
    by simp
  ultimately show ?thesis by (simp only:)
qed

text \<open>
  Claim C8. The bound of 85 degrees is not kept. The howitzer is set to the elevation
  \<^verbatim>\<open>0.32\<close> degrees, which \<^verbatim>\<open>getDegrees\<close> returns unchanged and which is inside
  \<open>[0, 85]\<close>. In \<^verbatim>\<open>rotate(1.4779448105887985)\<close> the sum \<^verbatim>\<open>newDegrees\<close> rounds to exactly
  85, so the test \<^verbatim>\<open>newDegrees <= MAX_ELEVATION_ANGLE\<close> passes and \<^verbatim>\<open>elevation.add\<close> runs;
  the radians it stores convert back to \<open>85 + 2\<^sup>-\<^sup>4\<^sup>6\<close> degrees, above the bound.
  \<^verbatim>\<open>raise(-1.4779448105887985)\<close>, with the barrel pointing to the right, takes the same
  path to the same elevation.
\<close>

theorem elevation_exceeds_85:
  "getDegrees (elevation (setElevation (fl 0.32) Howitzer_default)) = fl 0.32
   \<and> 0 \<le> fl 0.32 \<and> fl 0.32 \<le> 85
   \<and> getDegrees (elevation (Howitzer_rotate (fl 1.4779448105887985)
                                (setElevation (fl 0.32) Howitzer_default))) = 85 + 1 / 2 ^ 46
   \<and> getDegrees (elevation (Howitzer_raise (- fl 1.4779448105887985)
                                (setElevation (fl 0.32) Howitzer_default))) = 85 + 1 / 2 ^ 46"
proof -
  have "getDegrees (elevation (setElevation (fl 0.32) Howitzer_default)) = 5764607523034235 / 2 ^ 54"
    by (rule getDegrees_032[OF elevation_032])
  then have a: "getDegrees (elevation (setElevation (fl 0.32) Howitzer_default)) = fl 0.32"
    by (simp only: fl_literal_032)
  have b: "0 \<le> fl 0.32 \<and> fl 0.32 \<le> 85" unfolding fl_literal_032 by simp
  note c = getDegrees_new[OF rotate_from_032[OF elevation_032[of Howitzer_default]]]
  note d = getDegrees_new[OF raise_from_032[OF elevation_032[of Howitzer_default]]]
  from a b c d show ?thesis by (intro conjI) (simp_all only:)
qed

section \<open>Atmospheric tables\<close>

lemma interp_formula_between:
  fixes d0 d1 r0 r1 d lo hi :: real
  assumes "d0 \<le> d" "d < d1" "lo \<le> r0" "r0 \<le> hi" "lo \<le> r1" "r1 \<le> hi"
  shows "lo \<le> r0 + (r1 - r0) * (d - d0) / (d1 - d0)" "r0 + (r1 - r0) * (d - d0) / (d1 - d0) \<le> hi"
proof -
  define w where "w = (d - d0) / (d1 - d0)"
  have w: "0 \<le> w" "w \<le> 1" using assms(1,2) by (simp_all add: w_def)
  have "(r1 - r0) * (d - d0) / (d1 - d0) = (r1 - r0) * w" by (simp add: w_def)
  then have e: "r0 + (r1 - r0) * (d - d0) / (d1 - d0) = (1 - w) * r0 + w * r1"
    by (simp add: algebra_simps)
  have "(1 - w) * lo + w * lo \<le> (1 - w) * r0 + w * r1"
    using w assms(3,5) by (intro add_mono mult_left_mono) simp_all
  then show "lo \<le> r0 + (r1 - r0) * (d - d0) / (d1 - d0)" unfolding e by (simp add: algebra_simps)
  have "(1 - w) * r0 + w * r1 \<le> (1 - w) * hi + w * hi"
    using w assms(4,6) by (intro add_mono mult_left_mono) simp_all
  then show "r0 + (r1 - r0) * (d - d0) / (d1 - d0) \<le> hi" unfolding e by (simp add: algebra_simps)
qed

lemma interp_bounds:
  assumes ne: "m \<noteq> []" and sorted: "sorted_wrt (<) (map domain m)"
    and all: "list_all (\<lambda>knot. lo \<le> range_val knot \<and> range_val knot \<le> hi) m"
  shows "\<exists>r. linearInterpolation_map m d = Inr r \<and> lo \<le> r \<and> r \<le> hi"
proof -
  from all have rng: "\<forall>k < length m. lo \<le> range_val (m ! k) \<and> range_val (m ! k) \<le> hi"
    by (simp add: list_all_length)
  have nat1: "nat (int (length m) - 1) = length m - 1" by simp
  consider (low) "d \<le> domain (m ! 0)" | (high) "domain (m ! 0) < d" "domain (m ! (length m - 1)) \<le> d"
    | (mid) "domain (m ! 0) < d" "d < domain (m ! (length m - 1))" by linarith
  then show ?thesis
  proof cases
    case low
    then have "linearInterpolation_map m d = Inr (range_val (m ! 0))"
      using ne by (simp add: linearInterpolation_map_def)
    with rng ne show ?thesis by simp
  next
    case high
    then have "linearInterpolation_map m d = Inr (range_val (m ! (length m - 1)))"
      using ne by (simp add: linearInterpolation_map_def nat1)
    with rng ne show ?thesis by simp
  next
    case mid
    from interp_interior[OF ne mid] obtain k where k: "k + 1 < length m" "domain (m ! k) \<le> d"
      "d < domain (m ! (k + 1))" "linearInterpolation_map m d = Inr (interp_formula m k d)" by blast
    from rng k(1) have "lo \<le> range_val (m ! k)" "range_val (m ! k) \<le> hi"
      "lo \<le> range_val (m ! (k + 1))" "range_val (m ! (k + 1)) \<le> hi" by simp_all
    from interp_formula_between[OF k(2,3) this] k(4) show ?thesis by simp
  qed
qed

lemma gravityMapping_sorted: "sorted_wrt (<) (map domain gravityMapping)"
  by (simp add: gravityMapping_def Mapping_init_def)

lemma densityMapping_sorted: "sorted_wrt (<) (map domain densityMapping)"
  by (simp add: densityMapping_def Mapping_init_def)

lemma speedSoundMapping_sorted: "sorted_wrt (<) (map domain speedSoundMapping)"
  by (simp add: speedSoundMapping_def Mapping_init_def)

lemma dragMapping_sorted: "sorted_wrt (<) (map domain dragMapping)"
  by (simp add: dragMapping_def Mapping_init_def)

lemma gravityFromAltitude_bounds:
  "\<exists>g. gravityFromAltitude altitude = Inr g \<and> 9.564 \<le> g \<and> g \<le> 9.807"
  unfolding gravityFromAltitude_def
  by (rule interp_bounds[OF _ gravityMapping_sorted])
     (simp_all add: gravityMapping_def Mapping_init_def)

lemma densityFromAltitude_bounds:
  "\<exists>r. densityFromAltitude altitude = Inr r \<and> 0 \<le> r \<and> r \<le> 1.225"
  unfolding densityFromAltitude_def
  by (rule interp_bounds[OF _ densityMapping_sorted])
     (simp_all add: densityMapping_def Mapping_init_def)

lemma speedSoundFromAltitude_bounds:
  "\<exists>r. speedSoundFromAltitude altitude = Inr r \<and> 269 \<le> r \<and> r \<le> 340"
  unfolding speedSoundFromAltitude_def
  by (rule interp_bounds[OF _ speedSoundMapping_sorted])
     (simp_all add: speedSoundMapping_def Mapping_init_def)

lemma dragFromMach_bounds:
  "\<exists>r. dragFromMach speedMach = Inr r \<and> 0 \<le> r \<and> r \<le> 0.4483"
  unfolding dragFromMach_def
  by (rule interp_bounds[OF _ dragMapping_sorted])
     (simp_all add: dragMapping_def Mapping_init_def)

lemma gravity_low_segment:
  assumes "0 \<le> altitude" "altitude \<le> 1000"
  shows "gravityFromAltitude altitude = Inr (9.807 - 0.003 * altitude / 1000)"
  unfolding gravityFromAltitude_def
  using interp_bracket[OF gravityMapping_sorted, of 0 altitude] assms
  by (simp add: gravityMapping_def Mapping_init_def algebra_simps)

lemma gravity_at_200: "gravityFromAltitude 200 = Inr 9.8064"
  using gravity_low_segment[of 200] by simp

section \<open>Drag\<close>

lemma getSpeed_nonneg: "0 \<le> getSpeed vel"
  by (simp add: getSpeed_def)


lemma drag_at_rest:
  "getSpeed (pvt_v s) = 0 \<Longrightarrow> calculateDragAcceleration p s = Inr (Acceleration_init 0 0)"
  by (simp add: calculateDragAcceleration_def Let_def)

lemma forceFromDrag_ok:
  assumes "0 \<le> density" "0 \<le> drag" "0 \<le> r" "0 \<le> speed"
  shows "forceFromDrag density drag r speed = Inr (0.5 * density * drag * (M_PI * (r * r)) * (speed * speed))"
    and "0 \<le> 0.5 * density * drag * (M_PI * (r * r)) * (speed * speed)"
proof -
  have "0 \<le> M_PI" by (simp add: M_PI_def)
  with assms show "0 \<le> 0.5 * density * drag * (M_PI * (r * r)) * (speed * speed)" by simp
  from assms show "forceFromDrag density drag r speed
      = Inr (0.5 * density * drag * (M_PI * (r * r)) * (speed * speed))"
    by (simp add: forceFromDrag_def areaFromRadius_def)
qed

lemma drag_moving:
  assumes sp: "getSpeed (pvt_v s) \<noteq> 0" and m: "0 < mass p" and r: "0 \<le> radius p"
  shows "\<exists>density speedSound dragCoeff force.
           densityFromAltitude (max 0 (getMetersY (pvt_pos s))) = Inr density
         \<and> speedSoundFromAltitude (max 0 (getMetersY (pvt_pos s))) = Inr speedSound
         \<and> 0 < speedSound
         \<and> dragFromMach (getSpeed (pvt_v s) / speedSound) = Inr dragCoeff
         \<and> forceFromDrag density dragCoeff (radius p) (getSpeed (pvt_v s)) = Inr force
         \<and> 0 \<le> force / mass p / getSpeed (pvt_v s)
         \<and> calculateDragAcceleration p s =
             Inr (Acceleration_init (- (force / mass p / getSpeed (pvt_v s)) * dx (pvt_v s))
                                    (- (force / mass p / getSpeed (pvt_v s)) * dy (pvt_v s)))"
proof -
  define alt where "alt = max 0 (getMetersY (pvt_pos s))"
  define speed where "speed = getSpeed (pvt_v s)"
  have sp0: "0 \<le> speed" "speed \<noteq> 0" using sp getSpeed_nonneg by (simp_all add: speed_def)
  obtain density where d: "densityFromAltitude alt = Inr density" "0 \<le> density"
    using densityFromAltitude_bounds by blast
  obtain speedSound where c: "speedSoundFromAltitude alt = Inr speedSound" "269 \<le> speedSound"
    using speedSoundFromAltitude_bounds by blast
  obtain dragCoeff where g: "dragFromMach (speed / speedSound) = Inr dragCoeff" "0 \<le> dragCoeff"
    using dragFromMach_bounds by blast
  define force where "force = 0.5 * density * dragCoeff * (M_PI * (radius p * radius p)) * (speed * speed)"
  have f: "forceFromDrag density dragCoeff (radius p) speed = Inr force" "0 \<le> force"
    unfolding force_def using forceFromDrag_ok[OF d(2) g(2) r sp0(1)] by simp_all
  have a: "accelerationFromForce force (mass p) = Inr (force / mass p)"
    using m by (simp add: accelerationFromForce_def)
  have "calculateDragAcceleration p s =
          Inr (Acceleration_init (- (force / mass p) * (dx (pvt_v s) / speed))
                                 (- (force / mass p) * (dy (pvt_v s) / speed)))"
    using sp0(2) by (simp add: calculateDragAcceleration_def Let_def alt_def[symmetric]
        speed_def[symmetric] d c g f a getDX_def getDY_def)
  moreover have "0 \<le> force / mass p / speed" using f(2) m sp0 by simp
  moreover have "0 < speedSound" using c(2) by simp
  ultimately show ?thesis
    using d(1) c(1) g(1) f(1) unfolding alt_def speed_def by (intro exI[of _ density] exI[of _ speedSound] exI[of _ dragCoeff] exI[of _ force]) simp
qed









section \<open>One step of the integration\<close>

lemma total_acceleration_at_rest:
  assumes "getSpeed (pvt_v s) = 0" "gravityFromAltitude (max 0 (getMetersY (pvt_pos s))) = Inr g"
  shows "calculateTotalAcceleration p s = Inr (Acceleration_init 0 (- g))"
  using assms drag_at_rest[OF assms(1), of p]
  by (simp add: calculateTotalAcceleration_def Let_def Acceleration_plus_def Acceleration_init_def)

lemma total_acceleration_ok:
  assumes "getSpeed (pvt_v s) = 0 \<or> (0 < mass p \<and> 0 \<le> radius p)"
  shows "\<exists>a. calculateTotalAcceleration p s = Inr a"
proof -
  obtain g where g: "gravityFromAltitude (max 0 (getMetersY (pvt_pos s))) = Inr g"
    using gravityFromAltitude_bounds by blast
  have "\<exists>a. calculateDragAcceleration p s = Inr a"
    using assms drag_at_rest[of s p] drag_moving[of s p] by (cases "getSpeed (pvt_v s) = 0") auto
  then show ?thesis by (auto simp: calculateTotalAcceleration_def Let_def g)
qed

text \<open>The sample that one step of the integration appends.\<close>

lemma advance_step:
  assumes "isActive p" "flightPath p \<noteq> []" "pvt_t (last (flightPath p)) < time"
    and "calculateTotalAcceleration p (last (flightPath p)) = Inr a"
  shows "advance time p =
     (let cur = last (flightPath p);
          dt = time - pvt_t cur;
          s = \<lparr>pvt_pos = \<lparr>pos_x = pos_x (pvt_pos cur) + (dx (pvt_v cur) * dt + 0.5 * ddx a * dt * dt),
                          pos_y = pos_y (pvt_pos cur) + (dy (pvt_v cur) * dt + 0.5 * ddy a * dt * dt)\<rparr>,
               pvt_v = \<lparr>dx = dx (pvt_v cur) + ddx a * dt, dy = dy (pvt_v cur) + ddy a * dt\<rparr>,
               pvt_t = time\<rparr>
      in Inr (p\<lparr>flightPath := flightPath p @ [s], isActive := \<not> pos_y (pvt_pos s) < 0\<rparr>))"
  using assms
  by (simp add: advance_def Let_def Position_add_def Velocity_add_def getDX_def getDY_def
      getDDX_def getDDY_def getMetersY_def)

lemma advance_noop:
  assumes "\<not> isActive p \<or> flightPath p = [] \<or> \<not> pvt_t (last (flightPath p)) < time"
  shows "advance time p = Inr p"
  using assms by (auto simp: advance_def Let_def)

lemma advance_Inr_cases:
  assumes "advance time p = Inr p1"
  shows "(p1 = p \<and> (\<not> isActive p \<or> flightPath p = [] \<or> \<not> pvt_t (last (flightPath p)) < time))
       \<or> (isActive p \<and> flightPath p \<noteq> [] \<and> pvt_t (last (flightPath p)) < time
          \<and> (\<exists>s. pvt_t s = time \<and> p1 = p\<lparr>flightPath := flightPath p @ [s],
                                            isActive := \<not> getMetersY (pvt_pos s) < 0\<rparr>))"
proof (cases "\<not> isActive p \<or> flightPath p = [] \<or> \<not> pvt_t (last (flightPath p)) < time")
  case True
  with advance_noop[OF True] assms show ?thesis by simp
next
  case False
  then have g: "isActive p" "flightPath p \<noteq> []" "pvt_t (last (flightPath p)) < time" by auto
  show ?thesis
  proof (cases "calculateTotalAcceleration p (last (flightPath p))")
    case (Inl e)
    with g assms show ?thesis by (simp add: advance_def Let_def)
  next
    case (Inr a)
    define s where "s = \<lparr>pvt_pos =
        \<lparr>pos_x = pos_x (pvt_pos (last (flightPath p)))
                   + (dx (pvt_v (last (flightPath p))) * (time - pvt_t (last (flightPath p)))
                      + 0.5 * ddx a * (time - pvt_t (last (flightPath p))) * (time - pvt_t (last (flightPath p)))),
         pos_y = pos_y (pvt_pos (last (flightPath p)))
                   + (dy (pvt_v (last (flightPath p))) * (time - pvt_t (last (flightPath p)))
                      + 0.5 * ddy a * (time - pvt_t (last (flightPath p))) * (time - pvt_t (last (flightPath p))))\<rparr>,
       pvt_v = \<lparr>dx = dx (pvt_v (last (flightPath p))) + ddx a * (time - pvt_t (last (flightPath p))),
                dy = dy (pvt_v (last (flightPath p))) + ddy a * (time - pvt_t (last (flightPath p)))\<rparr>,
       pvt_t = time\<rparr>"
    have "advance time p = Inr (p\<lparr>flightPath := flightPath p @ [s], isActive := \<not> pos_y (pvt_pos s) < 0\<rparr>)"
      unfolding advance_step[OF g Inr] Let_def s_def ..
    with assms have "p1 = p\<lparr>flightPath := flightPath p @ [s], isActive := \<not> getMetersY (pvt_pos s) < 0\<rparr>"
      by (simp add: getMetersY_def)
    moreover have "pvt_t s = time" by (simp add: s_def)
    ultimately show ?thesis using g by blast
  qed
qed

lemma rest_step:
  assumes act: "isActive p" and ne: "flightPath p \<noteq> []"
    and lst: "last (flightPath p) = \<lparr>pvt_pos = \<lparr>pos_x = a, pos_y = b\<rparr>, pvt_v = \<lparr>dx = 0, dy = 0\<rparr>, pvt_t = t0\<rparr>"
    and alt: "0 \<le> b" "b \<le> 1000" and time: "t0 < time"
  shows "calculateTotalAcceleration p (last (flightPath p)) = Inr (Acceleration_init 0 (- (9.807 - 0.003 * b / 1000)))"
    and "advance time p = Inr (p\<lparr>flightPath := flightPath p @
            [\<lparr>pvt_pos = \<lparr>pos_x = a, pos_y = b + 0.5 * (- (9.807 - 0.003 * b / 1000)) * (time - t0) * (time - t0)\<rparr>,
              pvt_v = \<lparr>dx = 0, dy = - (9.807 - 0.003 * b / 1000) * (time - t0)\<rparr>, pvt_t = time\<rparr>],
            isActive := \<not> b + 0.5 * (- (9.807 - 0.003 * b / 1000)) * (time - t0) * (time - t0) < 0\<rparr>)"
proof -
  have sp: "getSpeed (pvt_v (last (flightPath p))) = 0" by (simp add: lst getSpeed_def)
  have g: "gravityFromAltitude (max 0 (getMetersY (pvt_pos (last (flightPath p))))) = Inr (9.807 - 0.003 * b / 1000)"
    using gravity_low_segment[OF alt] alt(1) by (simp add: lst getMetersY_def max_def)
  show acc: "calculateTotalAcceleration p (last (flightPath p)) = Inr (Acceleration_init 0 (- (9.807 - 0.003 * b / 1000)))"
    by (rule total_acceleration_at_rest[OF sp g])
  have t: "pvt_t (last (flightPath p)) < time" using time by (simp add: lst)
  show "advance time p = Inr (p\<lparr>flightPath := flightPath p @
            [\<lparr>pvt_pos = \<lparr>pos_x = a, pos_y = b + 0.5 * (- (9.807 - 0.003 * b / 1000)) * (time - t0) * (time - t0)\<rparr>,
              pvt_v = \<lparr>dx = 0, dy = - (9.807 - 0.003 * b / 1000) * (time - t0)\<rparr>, pvt_t = time\<rparr>],
            isActive := \<not> b + 0.5 * (- (9.807 - 0.003 * b / 1000)) * (time - t0) * (time - t0) < 0\<rparr>)"
    unfolding advance_step[OF act ne t acc] by (simp add: Let_def lst Acceleration_init_def)
qed

section \<open>Trajectories\<close>

lemma advance_prefix:
  assumes "advance time p = Inr p1"
  shows "prefix (flightPath p) (flightPath p1)"
  using advance_Inr_cases[OF assms] by auto

lemma advance_timestamps:
  assumes "advance time p = Inr p1" "sorted_wrt (<) (map pvt_t (flightPath p))"
  shows "sorted_wrt (<) (map pvt_t (flightPath p1))"
proof -
  from advance_Inr_cases[OF assms(1)] consider "p1 = p"
    | s where "flightPath p \<noteq> []" "pvt_t (last (flightPath p)) < time" "pvt_t s = time"
        "flightPath p1 = flightPath p @ [s]" by auto
  then show ?thesis
  proof cases
    case 1 with assms(2) show ?thesis by simp
  next
    case 2
    have "x < time" if "x \<in> set (map pvt_t (flightPath p))" for x
    proof -
      have l: "last (map pvt_t (flightPath p)) = pvt_t (last (flightPath p))"
        using 2(1) by (simp add: last_map)
      from that obtain i where i: "i < length (map pvt_t (flightPath p))" "x = map pvt_t (flightPath p) ! i"
        by (auto simp: in_set_conv_nth)
      show ?thesis
      proof (cases "i = length (map pvt_t (flightPath p)) - 1")
        case True
        with i 2(1,2) l show ?thesis by (simp add: last_conv_nth)
      next
        case False
        with i have "i < length (map pvt_t (flightPath p)) - 1" by simp
        with sorted_wrt_nth_less[OF assms(2), of i "length (map pvt_t (flightPath p)) - 1"] i
        have "x < last (map pvt_t (flightPath p))" using 2(1) by (simp add: last_conv_nth)
        with l 2(2) show ?thesis by simp
      qed
    qed
    with assms(2) 2(3,4) show ?thesis by (simp add: sorted_wrt_append)
  qed
qed

lemma advance_all_timestamps:
  assumes "advance_all ts p = Inr p1" "sorted_wrt (<) (map pvt_t (flightPath p))"
  shows "sorted_wrt (<) (map pvt_t (flightPath p1))"
  using assms
proof (induction ts arbitrary: p)
  case Nil
  then show ?case by simp
next
  case (Cons time ts)
  then show ?case by (auto split: sum.splits dest: advance_timestamps)
qed

lemma advance_all_prefix:
  assumes "advance_all ts p = Inr p1"
  shows "prefix (flightPath p) (flightPath p1)"
  using assms
proof (induction ts arbitrary: p)
  case Nil
  then show ?case by simp
next
  case (Cons time ts)
  then show ?case by (auto split: sum.splits dest!: advance_prefix intro: prefix_order.trans)
qed

lemma fire_ok:
  assumes "0 \<le> muzzleVel" "0 \<le> time"
  shows "fire p0 angle muzzleVel time p =
           Inr (p\<lparr>flightPath := [\<lparr>pvt_pos = p0,
                                   pvt_v = \<lparr>dx = muzzleVel * sin (radians angle),
                                            dy = muzzleVel * cos (radians angle)\<rparr>,
                                   pvt_t = time\<rparr>],
                  isActive := True\<rparr>)"
  using assms
  by (simp add: fire_def Let_def PositionVelocityTime_init_def Velocity_set_def Velocity_default_def
      getRadians_def)

lemma fire_Inr:
  assumes "fire p0 angle muzzleVel time p = Inr p1"
  shows "0 \<le> muzzleVel \<and> 0 \<le> time
       \<and> p1 = p\<lparr>flightPath := [\<lparr>pvt_pos = p0,
                                pvt_v = \<lparr>dx = muzzleVel * sin (radians angle),
                                         dy = muzzleVel * cos (radians angle)\<rparr>,
                                pvt_t = time\<rparr>],
                isActive := True\<rparr>"
proof -
  have a: "0 \<le> muzzleVel \<and> 0 \<le> time" using assms by (auto simp: fire_def split: if_splits)
  with fire_ok[of muzzleVel time p0 angle p] assms show ?thesis by simp
qed

lemma advance_ok:
  assumes "0 < mass p" "0 \<le> radius p"
  shows "\<exists>p1. advance time p = Inr p1"
proof (cases "\<not> isActive p \<or> flightPath p = [] \<or> \<not> pvt_t (last (flightPath p)) < time")
  case True
  from advance_noop[OF this] show ?thesis by blast
next
  case False
  then have g: "isActive p" "flightPath p \<noteq> []" "pvt_t (last (flightPath p)) < time" by auto
  from total_acceleration_ok[of "last (flightPath p)" p] assms obtain a
    where "calculateTotalAcceleration p (last (flightPath p)) = Inr a" by blast
  from advance_step[OF g this] show ?thesis by (simp add: Let_def)
qed

text \<open>
  Claim C3. For every projectile and every time, \<^verbatim>\<open>advance\<close> returns the projectile as
  it was (flight path, active flag, mass, radius) if and only if the projectile is not
  active, or its flight path is empty, or the time is not strictly greater than the
  time of the last sample. With a positive mass and a non-negative radius no assertion
  fails, so \<^verbatim>\<open>advance\<close> does return. Whenever it returns, the old flight path is a prefix
  of the new one: no sample is removed. And after \<^verbatim>\<open>fire\<close> followed by any sequence of
  \<^verbatim>\<open>advance\<close> calls the times along the flight path are strictly increasing.
\<close>

theorem advance_noop_iff_and_monotone:
  "(advance time p = Inr p \<longleftrightarrow>
      (\<not> isActive p \<or> flightPath p = [] \<or> \<not> pvt_t (last (flightPath p)) < time))
   \<and> (0 < mass p \<and> 0 \<le> radius p \<longrightarrow> (\<exists>p1. advance time p = Inr p1))
   \<and> (advance time p = Inr p1 \<longrightarrow> prefix (flightPath p) (flightPath p1))
   \<and> (fire p0 angle muzzleVel time0 q = Inr q1 \<and> advance_all ts q1 = Inr q2 \<longrightarrow>
         sorted_wrt (<) (map pvt_t (flightPath q2)) \<and> prefix (flightPath q1) (flightPath q2))"
proof -
  have "\<not> isActive p \<or> flightPath p = [] \<or> \<not> pvt_t (last (flightPath p)) < time"
    if "advance time p = Inr p"
    using advance_Inr_cases[OF that] by (auto dest: arg_cong[where f = flightPath])
  then have a: "advance time p = Inr p \<longleftrightarrow>
      (\<not> isActive p \<or> flightPath p = [] \<or> \<not> pvt_t (last (flightPath p)) < time)"
    using advance_noop[of p time] by blast
  have d: "sorted_wrt (<) (map pvt_t (flightPath q2)) \<and> prefix (flightPath q1) (flightPath q2)"
    if "fire p0 angle muzzleVel time0 q = Inr q1" "advance_all ts q1 = Inr q2"
  proof -
    from fire_Inr[OF that(1)] have "sorted_wrt (<) (map pvt_t (flightPath q1))" by simp
    from advance_all_timestamps[OF that(2) this] advance_all_prefix[OF that(2)] show ?thesis by simp
  qed
  show ?thesis using a advance_ok[of p time] advance_prefix[of time p p1] d by blast
qed

lemma fire_at_rest:
  "0 \<le> t0 \<Longrightarrow> fire (Position_init a b) Angle_default 0 t0 Projectile_default = Inr (fired_at_rest a b t0)"
  by (simp add: fire_ok fired_at_rest_def Position_init_def)

lemma fired_at_rest_simps:
  "isActive (fired_at_rest a b t0)" "flightPath (fired_at_rest a b t0) \<noteq> []"
  "last (flightPath (fired_at_rest a b t0))
     = \<lparr>pvt_pos = \<lparr>pos_x = a, pos_y = b\<rparr>, pvt_v = \<lparr>dx = 0, dy = 0\<rparr>, pvt_t = t0\<rparr>"
  "mass (fired_at_rest a b t0) = 46.7" "radius (fired_at_rest a b t0) = 0.077545"
  by (simp_all add: fired_at_rest_def Projectile_default_def DEFAULT_PROJECTILE_WEIGHT_def
      DEFAULT_PROJECTILE_RADIUS_def)

lemma fall_from_200:
  "advance 101 (fired_at_rest 100 200 100) =
     Inr ((fired_at_rest 100 200 100)\<lparr>flightPath := flightPath (fired_at_rest 100 200 100) @
            [\<lparr>pvt_pos = \<lparr>pos_x = 100, pos_y = 195.0968\<rparr>,
              pvt_v = \<lparr>dx = 0, dy = - 9.8064\<rparr>, pvt_t = 101\<rparr>]\<rparr>)"
proof -
  have "advance 101 (fired_at_rest 100 200 100) =
     Inr ((fired_at_rest 100 200 100)\<lparr>flightPath := flightPath (fired_at_rest 100 200 100) @
            [\<lparr>pvt_pos = \<lparr>pos_x = 100, pos_y = 195.0968\<rparr>,
              pvt_v = \<lparr>dx = 0, dy = - 9.8064\<rparr>, pvt_t = 101\<rparr>], isActive := True\<rparr>)"
    using rest_step(2)[where p = "fired_at_rest 100 200 100" and a = 100 and b = 200 and ?t0.0 = 100
        and time = 101]
    by (simp add: fired_at_rest_simps)
  then show ?thesis by (simp add: fired_at_rest_def)
qed

lemma impact_from_ground:
  "advance 1 (fired_at_rest 0 0 0) =
     Inr ((fired_at_rest 0 0 0)\<lparr>flightPath := flightPath (fired_at_rest 0 0 0) @
            [\<lparr>pvt_pos = \<lparr>pos_x = 0, pos_y = - 4.9035\<rparr>,
              pvt_v = \<lparr>dx = 0, dy = - 9.807\<rparr>, pvt_t = 1\<rparr>],
          isActive := False\<rparr>)"
  using rest_step(2)[where p = "fired_at_rest 0 0 0" and a = 0 and b = 0 and ?t0.0 = 0 and time = 1]
  by (simp add: fired_at_rest_simps)

text \<open>A shot at rest from (100, 200) at time 100: advancing to time 100 changes
  nothing; advancing to 101, to 101 again and back to 100 adds one sample.\<close>

theorem advance_noop_iff_and_monotone_witness:
  "fire (Position_init 100 200) Angle_default 0 100 Projectile_default = Inr (fired_at_rest 100 200 100)
   \<and> advance 100 (fired_at_rest 100 200 100) = Inr (fired_at_rest 100 200 100)
   \<and> (\<exists>q2. advance_all [101, 101, 100] (fired_at_rest 100 200 100) = Inr q2
          \<and> map pvt_t (flightPath q2) = [100, 101]
          \<and> sorted_wrt (<) (map pvt_t (flightPath q2))
          \<and> prefix (flightPath (fired_at_rest 100 200 100)) (flightPath q2))"
proof -
  define q2 where "q2 = (fired_at_rest 100 200 100)\<lparr>flightPath := flightPath (fired_at_rest 100 200 100) @
            [\<lparr>pvt_pos = \<lparr>pos_x = 100, pos_y = 195.0968\<rparr>,
              pvt_v = \<lparr>dx = 0, dy = - 9.8064\<rparr>, pvt_t = 101\<rparr>]\<rparr>"
  have f: "fire (Position_init 100 200) Angle_default 0 100 Projectile_default = Inr (fired_at_rest 100 200 100)"
    by (simp add: fire_at_rest)
  have n: "advance 100 (fired_at_rest 100 200 100) = Inr (fired_at_rest 100 200 100)"
    using advance_noop_iff_and_monotone[of 100 "fired_at_rest 100 200 100"]
    by (simp add: fired_at_rest_simps)
  have t: "map pvt_t (flightPath q2) = [100, 101]" by (simp add: q2_def fired_at_rest_def)
  have s1: "advance 101 (fired_at_rest 100 200 100) = Inr q2"
    unfolding q2_def by (rule fall_from_200)
  have s2: "advance 101 q2 = Inr q2" and s3: "advance 100 q2 = Inr q2"
    using advance_noop_iff_and_monotone[of 101 q2] advance_noop_iff_and_monotone[of 100 q2]
    by (simp_all add: q2_def fired_at_rest_def)
  have a: "advance_all [101, 101, 100] (fired_at_rest 100 200 100) = Inr q2"
    by (simp add: s1 s2 s3)
  from advance_noop_iff_and_monotone[of _ _ _ "Position_init 100 200" Angle_default 0 100 Projectile_default
      "fired_at_rest 100 200 100" "[101, 101, 100]" q2] f a
  have "sorted_wrt (<) (map pvt_t (flightPath q2)) \<and> prefix (flightPath (fired_at_rest 100 200 100)) (flightPath q2)"
    by blast
  with f n a t show ?thesis by (intro conjI exI[of _ q2]) simp_all
qed

text \<open>
  Claim C5. For every position, angle, muzzle velocity \<open>\<ge> 0\<close> and launch time \<open>\<ge> 0\<close>,
  and every projectile, whatever its flight path and flag before, \<^verbatim>\<open>fire\<close> passes its
  assertions and leaves the projectile active with the one-sample flight path
  \<open>pos = p0\<close>, \<open>v = (m * sin \<theta>, m * cos \<theta>)\<close>, \<open>t = time\<close>, \<open>\<theta>\<close> the radians of the angle; mass
  and radius are not touched. In particular \<^verbatim>\<open>Angle(0.0)\<close>, muzzle velocity 100,
  position (111, 222), time 1 give the sample \<open>pos = (111, 222)\<close>, \<open>v = (0, 100)\<close>, \<open>t = 1\<close>.
\<close>

theorem fire_single_sample:
  "(0 \<le> muzzleVel \<and> 0 \<le> time \<longrightarrow>
      fire p0 angle muzzleVel time p =
        Inr (p\<lparr>flightPath := [\<lparr>pvt_pos = p0,
                                pvt_v = \<lparr>dx = muzzleVel * sin (radians angle),
                                         dy = muzzleVel * cos (radians angle)\<rparr>,
                                pvt_t = time\<rparr>],
               isActive := True\<rparr>))
   \<and> fire (Position_init 111 222) (Angle_degrees 0) 100 1 p =
        Inr (p\<lparr>flightPath := [\<lparr>pvt_pos = \<lparr>pos_x = 111, pos_y = 222\<rparr>,
                                pvt_v = \<lparr>dx = 0, dy = 100\<rparr>, pvt_t = 1\<rparr>],
               isActive := True\<rparr>)"
proof -
  have "radians (Angle_degrees 0) = 0"
    by (simp add: Angle_degrees_def convertToRadians_def Angle_normalize_zero fl_zero)
  then show ?thesis using fire_ok[of muzzleVel time p0 angle p]
      fire_ok[of 100 1 "Position_init 111 222" "Angle_degrees 0" p]
    by (simp add: Position_init_def)
qed

text \<open>Firing straight up over a projectile that already has a flight path.\<close>

theorem fire_single_sample_witness:
  "fire (Position_init 111 222) (setUp Angle_default) 827 3 (fired_at_rest 0 0 0) =
     Inr ((fired_at_rest 0 0 0)\<lparr>flightPath := [\<lparr>pvt_pos = \<lparr>pos_x = 111, pos_y = 222\<rparr>,
                                                 pvt_v = \<lparr>dx = 0, dy = 827\<rparr>, pvt_t = 3\<rparr>],
                                isActive := True\<rparr>)"
  using fire_single_sample[of 827 3 "Position_init 111 222" "setUp Angle_default" "fired_at_rest 0 0 0"]
  by (simp add: Position_init_def setUp_def Angle_default_def)

section \<open>The stationary fall\<close>

text \<open>A projectile that was constructed and then driven through its public operations is
  active whenever its flight path ends with a sample at or above the ground: \<^verbatim>\<open>fire\<close>
  is the only operation that adds a first sample, and it sets \<^verbatim>\<open>isActive\<close>; \<^verbatim>\<open>advance\<close>
  clears it only when it appends a sample below the ground.\<close>

lemma op_keeps_flying:
  assumes "apply_projectile_op opn p = Inr p1"
    and "flightPath p \<noteq> [] \<and> \<not> getMetersY (pvt_pos (last (flightPath p))) < 0 \<longrightarrow> isActive p"
  shows "flightPath p1 \<noteq> [] \<and> \<not> getMetersY (pvt_pos (last (flightPath p1))) < 0 \<longrightarrow> isActive p1"
proof (cases opn)
  case (OpAdvance time)
  with assms(1) have "advance time p = Inr p1" by simp
  from advance_Inr_cases[OF this] assms(2) show ?thesis by auto
next
  case OpReset
  with assms(1) show ?thesis by (auto simp: reset_def)
next
  case (OpFire p0 angle muzzleVel time)
  with assms(1) have "fire p0 angle muzzleVel time p = Inr p1" by simp
  from fire_Inr[OF this] show ?thesis by simp
next
  case (OpSetMass newMass)
  with assms show ?thesis by (auto simp: setMass_def)
next
  case (OpSetRadius newRadius)
  with assms show ?thesis by (auto simp: setRadius_def)
qed

lemma ops_keep_flying:
  assumes "apply_projectile_ops ops p = Inr p1"
    and "flightPath p \<noteq> [] \<and> \<not> getMetersY (pvt_pos (last (flightPath p))) < 0 \<longrightarrow> isActive p"
  shows "flightPath p1 \<noteq> [] \<and> \<not> getMetersY (pvt_pos (last (flightPath p1))) < 0 \<longrightarrow> isActive p1"
  using assms
proof (induction ops arbitrary: p)
  case Nil
  then show ?case by simp
next
  case (Cons opn ops)
  from Cons.prems(1) obtain p2 where s: "apply_projectile_op opn p = Inr p2"
    "apply_projectile_ops ops p2 = Inr p1"
    by (auto split: sum.splits)
  from Cons.IH[OF s(2) op_keeps_flying[OF s(1) Cons.prems(2)]] show ?case .
qed

lemma constructed_then_flying:
  assumes "apply_projectile_ops ops (Projectile_init m r) = Inr p"
    and "flightPath p \<noteq> []" "\<not> getMetersY (pvt_pos (last (flightPath p))) < 0"
  shows "isActive p"
  using ops_keep_flying[OF assms(1)] assms(2,3) by (simp add: Projectile_init_def)

lemma Projectile_default_init: "Projectile_default = Projectile_init 46.7 0.077545"
  by (simp add: Projectile_default_def Projectile_init_def DEFAULT_PROJECTILE_WEIGHT_def
      DEFAULT_PROJECTILE_RADIUS_def)

text \<open>
  Claim C1. For a projectile constructed with any mass and radius (the M795 defaults
  among them) and then driven through any sequence of public operations, whose flight
  path ends with the sample \<open>pos = (100, 200)\<close>, \<open>v = (0, 0)\<close>, \<open>t = 100\<close>:
  \<^verbatim>\<open>advance(101)\<close> appends exactly the sample \<open>pos = (100, 195.0968)\<close>,
  \<open>v = (0, -9.8064)\<close>, \<open>t = 101\<close> and changes nothing else. The acceleration of the step
  is \<open>(0, -9.8064)\<close>: the gravity interpolated at 200 m, computed once from the last
  sample, with no drag at speed zero.
\<close>

theorem advance_fall_constructed:
  assumes "apply_projectile_ops ops (Projectile_init m r) = Inr p"
    and "flightPath p \<noteq> []"
    and "last (flightPath p)
           = \<lparr>pvt_pos = \<lparr>pos_x = 100, pos_y = 200\<rparr>, pvt_v = \<lparr>dx = 0, dy = 0\<rparr>, pvt_t = 100\<rparr>"
  shows "gravityFromAltitude 200 = Inr 9.8064
       \<and> calculateTotalAcceleration p (last (flightPath p)) = Inr (Acceleration_init 0 (- 9.8064))
       \<and> advance 101 p = Inr (p\<lparr>flightPath := flightPath p @
            [\<lparr>pvt_pos = \<lparr>pos_x = 100, pos_y = 195.0968\<rparr>,
              pvt_v = \<lparr>dx = 0, dy = - 9.8064\<rparr>, pvt_t = 101\<rparr>]\<rparr>)"
proof -
  have act: "isActive p"
    by (rule constructed_then_flying[OF assms(1,2)]) (simp add: assms(3) getMetersY_def)
  then have "p\<lparr>flightPath := xs, isActive := True\<rparr> = p\<lparr>flightPath := xs\<rparr>" for xs
    by simp
  with rest_step[OF act assms(2,3), of 101] gravity_at_200 show ?thesis by simp
qed

text \<open>The default projectile, fired at rest from \<open>(100, 200)\<close> at \<open>t = 100\<close>.\<close>

theorem advance_fall_constructed_witness:
  "apply_projectile_ops [OpFire (Position_init 100 200) Angle_default 0 100]
       (Projectile_init 46.7 0.077545) = Inr (fired_at_rest 100 200 100)
   \<and> mass (fired_at_rest 100 200 100) = 46.7 \<and> radius (fired_at_rest 100 200 100) = 0.077545
   \<and> advance 101 (fired_at_rest 100 200 100)
     = Inr ((fired_at_rest 100 200 100)\<lparr>flightPath :=
          [\<lparr>pvt_pos = \<lparr>pos_x = 100, pos_y = 200\<rparr>, pvt_v = \<lparr>dx = 0, dy = 0\<rparr>, pvt_t = 100\<rparr>,
           \<lparr>pvt_pos = \<lparr>pos_x = 100, pos_y = 195.0968\<rparr>,
            pvt_v = \<lparr>dx = 0, dy = - 9.8064\<rparr>, pvt_t = 101\<rparr>]\<rparr>)"
proof -
  have f: "apply_projectile_ops [OpFire (Position_init 100 200) Angle_default 0 100]
       (Projectile_init 46.7 0.077545) = Inr (fired_at_rest 100 200 100)"
    using fire_at_rest[of 100 100 200] by (simp add: Projectile_default_init)
  from advance_fall_constructed[OF f fired_at_rest_simps(2) fired_at_rest_simps(3)]
  have "advance 101 (fired_at_rest 100 200 100)
     = Inr ((fired_at_rest 100 200 100)\<lparr>flightPath := flightPath (fired_at_rest 100 200 100) @
            [\<lparr>pvt_pos = \<lparr>pos_x = 100, pos_y = 195.0968\<rparr>,
              pvt_v = \<lparr>dx = 0, dy = - 9.8064\<rparr>, pvt_t = 101\<rparr>]\<rparr>)"
    by blast
  then have "advance 101 (fired_at_rest 100 200 100)
     = Inr ((fired_at_rest 100 200 100)\<lparr>flightPath :=
          [\<lparr>pvt_pos = \<lparr>pos_x = 100, pos_y = 200\<rparr>, pvt_v = \<lparr>dx = 0, dy = 0\<rparr>, pvt_t = 100\<rparr>,
           \<lparr>pvt_pos = \<lparr>pos_x = 100, pos_y = 195.0968\<rparr>,
            pvt_v = \<lparr>dx = 0, dy = - 9.8064\<rparr>, pvt_t = 101\<rparr>]\<rparr>)"
    by (simp add: fired_at_rest_def)
  with f show ?thesis by (simp add: fired_at_rest_simps)
qed

text \<open>The set-up of the unit test \<^verbatim>\<open>advance_fall\<close> is not such a projectile: the test
  writes the flight path through its friend access and leaves the projectile inactive,
  and there \<^verbatim>\<open>advance\<close> returns at its first guard.\<close>

lemma advance_fall_setup_not_constructed:
  "apply_projectile_ops ops (Projectile_init m r) \<noteq> Inr advance_fall_setup"
  "advance 101 advance_fall_setup = Inr advance_fall_setup"
proof -
  have s: "flightPath advance_fall_setup \<noteq> []"
    "\<not> getMetersY (pvt_pos (last (flightPath advance_fall_setup))) < 0"
    "\<not> isActive advance_fall_setup"
    by (simp_all add: advance_fall_setup_def Projectile_default_def getMetersY_def)
  show "apply_projectile_ops ops (Projectile_init m r) \<noteq> Inr advance_fall_setup"
    using constructed_then_flying[of ops m r advance_fall_setup] s by blast
  show "advance 101 advance_fall_setup = Inr advance_fall_setup"
    using s(3) by (simp add: advance_def)
qed

section \<open>Ground impact\<close>

text \<open>
  Claim C6. For every active projectile and every \<^verbatim>\<open>advance\<close> call that returns with a
  changed flight path, the new flight path is the old one with one sample appended; if
  the \<open>y\<close> of that sample is below zero the projectile is no longer active after the
  call, and if it is zero or more the projectile is still active. The sample below the
  ground stays: once the projectile is inactive every further \<^verbatim>\<open>advance\<close> returns it
  unchanged.
\<close>

theorem impact_deactivates:
  "isActive p \<and> advance time p = Inr p1 \<and> flightPath p1 \<noteq> flightPath p \<longrightarrow>
     (\<exists>s. flightPath p1 = flightPath p @ [s]
        \<and> (getMetersY (pvt_pos s) < 0 \<longrightarrow> \<not> isActive p1)
        \<and> (0 \<le> getMetersY (pvt_pos s) \<longrightarrow> isActive p1)
        \<and> (\<not> isActive p1 \<longrightarrow> (\<forall>time2. advance time2 p1 = Inr p1)))"
proof (intro impI, elim conjE)
  assume a: "isActive p" "advance time p = Inr p1" "flightPath p1 \<noteq> flightPath p"
  from advance_Inr_cases[OF a(2)] a(3) obtain s
    where s: "p1 = p\<lparr>flightPath := flightPath p @ [s], isActive := \<not> getMetersY (pvt_pos s) < 0\<rparr>"
    by auto
  have "advance time2 p1 = Inr p1" if "\<not> isActive p1" for time2
    using that by (rule advance_noop[OF disjI1])
  with s show "\<exists>s. flightPath p1 = flightPath p @ [s]
        \<and> (getMetersY (pvt_pos s) < 0 \<longrightarrow> \<not> isActive p1)
        \<and> (0 \<le> getMetersY (pvt_pos s) \<longrightarrow> isActive p1)
        \<and> (\<not> isActive p1 \<longrightarrow> (\<forall>time2. advance time2 p1 = Inr p1))"
    by (intro exI[of _ s]) auto
qed

text \<open>A shot at rest on the ground falls to \<open>y = -4.9035\<close> in one second and is inactive;
  the shot at rest at 200 m is at \<open>y = 195.0968\<close> after one second and still active.\<close>

theorem impact_deactivates_witness:
  "(\<exists>p1. advance 1 (fired_at_rest 0 0 0) = Inr p1
        \<and> map (\<lambda>s. getMetersY (pvt_pos s)) (flightPath p1) = [0, - 4.9035]
        \<and> \<not> isActive p1 \<and> advance 2 p1 = Inr p1)
   \<and> (\<exists>p1. advance 101 (fired_at_rest 100 200 100) = Inr p1
        \<and> map (\<lambda>s. getMetersY (pvt_pos s)) (flightPath p1) = [200, 195.0968]
        \<and> isActive p1)"
proof -
  define g1 where "g1 = (fired_at_rest 0 0 0)\<lparr>flightPath := flightPath (fired_at_rest 0 0 0) @
            [\<lparr>pvt_pos = \<lparr>pos_x = 0, pos_y = - 4.9035\<rparr>,
              pvt_v = \<lparr>dx = 0, dy = - 9.807\<rparr>, pvt_t = 1\<rparr>],
          isActive := False\<rparr>"
  define h1 where "h1 = (fired_at_rest 100 200 100)\<lparr>flightPath := flightPath (fired_at_rest 100 200 100) @
            [\<lparr>pvt_pos = \<lparr>pos_x = 100, pos_y = 195.0968\<rparr>,
              pvt_v = \<lparr>dx = 0, dy = - 9.8064\<rparr>, pvt_t = 101\<rparr>]\<rparr>"
  have g: "advance 1 (fired_at_rest 0 0 0) = Inr g1" unfolding g1_def by (rule impact_from_ground)
  have h: "advance 101 (fired_at_rest 100 200 100) = Inr h1" unfolding h1_def by (rule fall_from_200)
  have gp: "flightPath g1 \<noteq> flightPath (fired_at_rest 0 0 0)" by (simp add: g1_def)
  have hp: "flightPath h1 \<noteq> flightPath (fired_at_rest 100 200 100)" by (simp add: h1_def)
  have gy: "map (\<lambda>s. getMetersY (pvt_pos s)) (flightPath g1) = [0, - 4.9035]"
    by (simp add: g1_def fired_at_rest_def getMetersY_def)
  have hy: "map (\<lambda>s. getMetersY (pvt_pos s)) (flightPath h1) = [200, 195.0968]"
    by (simp add: h1_def fired_at_rest_def getMetersY_def)
  from impact_deactivates[of "fired_at_rest 0 0 0" 1 g1] g gp fired_at_rest_simps(1)[of 0 0 0]
  obtain s where "flightPath g1 = flightPath (fired_at_rest 0 0 0) @ [s]"
    "getMetersY (pvt_pos s) < 0 \<longrightarrow> \<not> isActive g1" "\<not> isActive g1 \<longrightarrow> (\<forall>time2. advance time2 g1 = Inr g1)"
    by blast
  with gy have "\<not> isActive g1 \<and> advance 2 g1 = Inr g1" by (auto simp: fired_at_rest_def)
  with g gy have A: "\<exists>p1. advance 1 (fired_at_rest 0 0 0) = Inr p1
        \<and> map (\<lambda>s. getMetersY (pvt_pos s)) (flightPath p1) = [0, - 4.9035]
        \<and> \<not> isActive p1 \<and> advance 2 p1 = Inr p1"
    by (intro exI[of _ g1]) simp
  from impact_deactivates[of "fired_at_rest 100 200 100" 101 h1] h hp fired_at_rest_simps(1)[of 100 200 100]
  obtain s where "flightPath h1 = flightPath (fired_at_rest 100 200 100) @ [s]"
    "0 \<le> getMetersY (pvt_pos s) \<longrightarrow> isActive h1"
    by blast
  with hy have "isActive h1" by (auto simp: fired_at_rest_def)
  with h hy have B: "\<exists>p1. advance 101 (fired_at_rest 100 200 100) = Inr p1
        \<and> map (\<lambda>s. getMetersY (pvt_pos s)) (flightPath p1) = [200, 195.0968]
        \<and> isActive p1"
    by (intro exI[of _ h1]) simp
  from A B show ?thesis by (rule conjI)
qed

section \<open>Accessors and the physical parameters\<close>

text \<open>
  Claim C9. \<^verbatim>\<open>getCurrentAltitude\<close> is 0 on an empty flight path and otherwise the maximum
  of 0 and the \<open>y\<close> of the last sample, so it is never negative. When the last sample has
  a negative \<open>y\<close> it is 0 while \<^verbatim>\<open>getPosition().getMetersY()\<close> is that negative \<open>y\<close>: the
  two disagree. Such a state arises: after firing at rest from the ground at time 0 and
  advancing to time 1 the projectile is inactive, \<^verbatim>\<open>getMetersY\<close> of its position is
  \<open>-4.9035\<close> and \<^verbatim>\<open>getCurrentAltitude\<close> is 0.
\<close>

theorem getCurrentAltitude_clamped:
  "getCurrentAltitude p
     = (if flightPath p = [] then 0 else max 0 (getMetersY (pvt_pos (last (flightPath p)))))
   \<and> 0 \<le> getCurrentAltitude p
   \<and> (flightPath p \<noteq> [] \<and> getMetersY (pvt_pos (last (flightPath p))) < 0 \<longrightarrow>
         getCurrentAltitude p = 0
       \<and> getMetersY (getPosition p) = getMetersY (pvt_pos (last (flightPath p)))
       \<and> getCurrentAltitude p \<noteq> getMetersY (getPosition p))
   \<and> (\<exists>p0 p1. fire (Position_init 0 0) Angle_default 0 0 Projectile_default = Inr p0
          \<and> advance 1 p0 = Inr p1
          \<and> \<not> isActive p1
          \<and> getMetersY (getPosition p1) = - 4.9035
          \<and> getCurrentAltitude p1 = 0)"
proof -
  define g1 where "g1 = (fired_at_rest 0 0 0)\<lparr>flightPath := flightPath (fired_at_rest 0 0 0) @
            [\<lparr>pvt_pos = \<lparr>pos_x = 0, pos_y = - 4.9035\<rparr>,
              pvt_v = \<lparr>dx = 0, dy = - 9.807\<rparr>, pvt_t = 1\<rparr>],
          isActive := False\<rparr>"
  have g: "advance 1 (fired_at_rest 0 0 0) = Inr g1" unfolding g1_def by (rule impact_from_ground)
  have f: "fire (Position_init 0 0) Angle_default 0 0 Projectile_default = Inr (fired_at_rest 0 0 0)"
    by (simp add: fire_at_rest)
  have "\<not> isActive g1" "getMetersY (getPosition g1) = - 4.9035" "getCurrentAltitude g1 = 0"
    by (simp_all add: g1_def getPosition_def getCurrentAltitude_def getMetersY_def)
  with f g have "\<exists>p0 p1. fire (Position_init 0 0) Angle_default 0 0 Projectile_default = Inr p0
          \<and> advance 1 p0 = Inr p1 \<and> \<not> isActive p1
          \<and> getMetersY (getPosition p1) = - 4.9035 \<and> getCurrentAltitude p1 = 0"
    by (intro exI[of _ "fired_at_rest 0 0 0"] exI[of _ g1]) simp
  then show ?thesis
    by (simp add: getCurrentAltitude_def getPosition_def)
qed

text \<open>The state after the impact, the default projectile and a shot at 200 m.\<close>

theorem getCurrentAltitude_clamped_witness:
  "getCurrentAltitude
       ((fired_at_rest 0 0 0)\<lparr>flightPath := flightPath (fired_at_rest 0 0 0) @
            [\<lparr>pvt_pos = \<lparr>pos_x = 0, pos_y = - 4.9035\<rparr>,
              pvt_v = \<lparr>dx = 0, dy = - 9.807\<rparr>, pvt_t = 1\<rparr>],
          isActive := False\<rparr>) = 0
   \<and> getMetersY (getPosition
       ((fired_at_rest 0 0 0)\<lparr>flightPath := flightPath (fired_at_rest 0 0 0) @
            [\<lparr>pvt_pos = \<lparr>pos_x = 0, pos_y = - 4.9035\<rparr>,
              pvt_v = \<lparr>dx = 0, dy = - 9.807\<rparr>, pvt_t = 1\<rparr>],
          isActive := False\<rparr>)) = - 4.9035
   \<and> getCurrentAltitude Projectile_default = 0
   \<and> getCurrentAltitude (fired_at_rest 100 200 100) = 200"
  using getCurrentAltitude_clamped[of "(fired_at_rest 0 0 0)\<lparr>flightPath := flightPath (fired_at_rest 0 0 0) @
            [\<lparr>pvt_pos = \<lparr>pos_x = 0, pos_y = - 4.9035\<rparr>,
              pvt_v = \<lparr>dx = 0, dy = - 9.807\<rparr>, pvt_t = 1\<rparr>],
          isActive := False\<rparr>"]
    getCurrentAltitude_clamped[of Projectile_default]
    getCurrentAltitude_clamped[of "fired_at_rest 100 200 100"]
  by (simp add: fired_at_rest_def Projectile_default_def getMetersY_def)

lemma advance_mass_radius:
  assumes "advance time p = Inr p1"
  shows "mass p1 = mass p \<and> radius p1 = radius p"
  using advance_Inr_cases[OF assms] by auto

lemma fire_mass_radius:
  assumes "fire p0 angle muzzleVel time p = Inr p1"
  shows "mass p1 = mass p \<and> radius p1 = radius p"
  using fire_Inr[OF assms] by simp

text \<open>
  Claim C10. \<^verbatim>\<open>setMass\<close> and \<^verbatim>\<open>setRadius\<close> store a positive argument and keep the old value
  otherwise, each leaving the other field alone; \<^verbatim>\<open>reset\<close> stores the M795 defaults 46.7
  and 0.077545; \<^verbatim>\<open>fire\<close> and \<^verbatim>\<open>advance\<close>, when they return, leave mass and radius as they
  were. So from a projectile with positive mass and radius every operation that can
  change a projectile gives positive mass and radius again. The constructor with two
  arguments stores what it is given, without a check; the default constructor stores
  the positive defaults.
\<close>

theorem mass_radius_stay_positive:
  "mass (setMass newMass p) = (if 0 < newMass then newMass else mass p)
   \<and> radius (setMass newMass p) = radius p
   \<and> radius (setRadius newRadius p) = (if 0 < newRadius then newRadius else radius p)
   \<and> mass (setRadius newRadius p) = mass p
   \<and> mass (reset p) = 46.7 \<and> radius (reset p) = 0.077545
   \<and> (fire p0 angle muzzleVel time p = Inr p1 \<longrightarrow> mass p1 = mass p \<and> radius p1 = radius p)
   \<and> (advance time p = Inr p2 \<longrightarrow> mass p2 = mass p \<and> radius p2 = radius p)
   \<and> (0 < mass p \<and> 0 < radius p \<and> apply_projectile_op opn p = Inr p3 \<longrightarrow>
         0 < mass p3 \<and> 0 < radius p3)
   \<and> mass (Projectile_init m r) = m \<and> radius (Projectile_init m r) = r
   \<and> mass Projectile_default = 46.7 \<and> radius Projectile_default = 0.077545"
proof -
  have inv: "0 < mass p3 \<and> 0 < radius p3"
    if "0 < mass p" "0 < radius p" "apply_projectile_op opn p = Inr p3"
  proof (cases opn)
    case (OpAdvance t)
    with that advance_mass_radius[of t p p3] show ?thesis by simp
  next
    case OpReset
    with that show ?thesis
      by (auto simp: reset_def DEFAULT_PROJECTILE_WEIGHT_def DEFAULT_PROJECTILE_RADIUS_def)
  next
    case (OpFire q a v t)
    with that fire_mass_radius[of q a v t p p3] show ?thesis by simp
  next
    case (OpSetMass x)
    with that show ?thesis by (auto simp: setMass_def)
  next
    case (OpSetRadius x)
    with that show ?thesis by (auto simp: setRadius_def)
  qed
  show ?thesis
    using inv fire_mass_radius[of p0 angle muzzleVel time p p1] advance_mass_radius[of time p p2]
    by (simp add: setMass_def setRadius_def reset_def Projectile_init_def Projectile_default_def
        DEFAULT_PROJECTILE_WEIGHT_def DEFAULT_PROJECTILE_RADIUS_def)
qed

text \<open>Rejected and accepted setters, a reset after a construction with negative values,
  and a step of a default projectile.\<close>

theorem mass_radius_stay_positive_witness:
  "mass (setMass (- 1) Projectile_default) = 46.7
   \<and> mass (setMass 10 Projectile_default) = 10
   \<and> radius (setRadius 0 Projectile_default) = 0.077545
   \<and> mass (reset (Projectile_init (- 99) (- 99))) = 46.7
   \<and> mass (Projectile_init (- 99) (- 99)) = - 99
   \<and> (\<exists>p2. advance 101 (fired_at_rest 100 200 100) = Inr p2 \<and> 0 < mass p2 \<and> 0 < radius p2)"
proof -
  have d: "mass Projectile_default = 46.7" "radius Projectile_default = 0.077545"
    using mass_radius_stay_positive by blast+
  have 1: "mass (setMass (- 1) Projectile_default) = 46.7"
    using mass_radius_stay_positive[THEN conjunct1, of "- 1" Projectile_default] d by simp
  have 2: "mass (setMass 10 Projectile_default) = 10"
    using mass_radius_stay_positive[THEN conjunct1, of 10 Projectile_default] by simp
  have "radius (setRadius 0 Projectile_default) = (if (0::real) < 0 then 0 else radius Projectile_default)"
    using mass_radius_stay_positive[where newRadius = 0 and p = Projectile_default] by blast
  then have 3: "radius (setRadius 0 Projectile_default) = 0.077545" using d by simp
  have 4: "mass (reset (Projectile_init (- 99) (- 99))) = 46.7"
    using mass_radius_stay_positive[where p = "Projectile_init (- 99) (- 99)"] by blast
  have 5: "mass (Projectile_init (- 99) (- 99)) = - 99"
    using mass_radius_stay_positive[where m = "- 99" and r = "- 99"] by blast
  define p2 where "p2 = (fired_at_rest 100 200 100)\<lparr>flightPath := flightPath (fired_at_rest 100 200 100) @
            [\<lparr>pvt_pos = \<lparr>pos_x = 100, pos_y = 195.0968\<rparr>,
              pvt_v = \<lparr>dx = 0, dy = - 9.8064\<rparr>, pvt_t = 101\<rparr>]\<rparr>"
  have s: "advance 101 (fired_at_rest 100 200 100) = Inr p2" unfolding p2_def by (rule fall_from_200)
  then have o: "apply_projectile_op (OpAdvance 101) (fired_at_rest 100 200 100) = Inr p2" by simp
  have pos: "0 < mass (fired_at_rest 100 200 100)" "0 < radius (fired_at_rest 100 200 100)"
    by (simp_all add: fired_at_rest_simps)
  have "0 < mass p2 \<and> 0 < radius p2"
    using mass_radius_stay_positive[where p = "fired_at_rest 100 200 100" and opn = "OpAdvance 101"
        and ?p3.0 = p2] pos o by blast
  with s have 6: "\<exists>p2. advance 101 (fired_at_rest 100 200 100) = Inr p2 \<and> 0 < mass p2 \<and> 0 < radius p2"
    by blast
  from 1 2 3 4 5 6 show ?thesis by (intro conjI)
qed

end
